theory Spec2Isabelle
  imports Complex_Main "HOL-Library.Multiset"
begin


section \<open>Exceptions and tensors\<close>

text \<open>
  The layers of \<^verbatim>\<open>network/module.py\<close> are modelled as functions on contiguous row-major
  tensors. A Python exception is a value \<open>Inl e\<close>; a normal return is \<open>Inr v\<close>.
  32-bit floats are idealised as real numbers. \<open>NonFinite\<close> is not a Python exception: it
  marks the points where the floating-point computation produces \<open>inf\<close> or \<open>nan\<close> from
  finite operands (a logarithm of a non-positive number, a division by zero), which the
  real-number model does not follow any further.
\<close>

datatype error =
    AssertionError | AttributeError | TypeError | RuntimeError | IndexError
  | NotImplementedError | ValueError | NonFinite

definition bnd :: "error + 'a \<Rightarrow> ('a \<Rightarrow> error + 'b) \<Rightarrow> error + 'b" where
  "bnd m f = (case m of Inl e \<Rightarrow> Inl e | Inr v \<Rightarrow> f v)"

record 'a tensor =
  shape :: "nat list"
  data :: "'a list"

definition numel :: "'a tensor \<Rightarrow> nat" where
  "numel t = prod_list (shape t)"

definition wf_tensor :: "'a tensor \<Rightarrow> bool" where
  "wf_tensor t \<longleftrightarrow> length (data t) = prod_list (shape t)"

text \<open>Row-major offsets: \<open>ravel\<close> maps a multi-index to its offset, \<open>unravel\<close> back.\<close>

fun ravel :: "nat list \<Rightarrow> nat list \<Rightarrow> nat" where
  "ravel (d # ds) (i # ix) = i * prod_list ds + ravel ds ix"
| "ravel _ _ = 0"

fun unravel :: "nat list \<Rightarrow> nat \<Rightarrow> nat list" where
  "unravel [] j = []"
| "unravel (d # ds) j = (j div prod_list ds) # unravel ds (j mod prod_list ds)"

definition tabulate :: "nat list \<Rightarrow> (nat list \<Rightarrow> 'a) \<Rightarrow> 'a tensor" where
  "tabulate sh f = \<lparr>shape = sh, data = map (\<lambda>j. f (unravel sh j)) [0..<prod_list sh]\<rparr>"

definition get_at :: "'a tensor \<Rightarrow> nat list \<Rightarrow> 'a" where
  "get_at t ix = data t ! ravel (shape t) ix"

subsection \<open>\<^verbatim>\<open>Tensor.view\<close> and \<^verbatim>\<open>Tensor.permute(...).contiguous()\<close>\<close>

text \<open>
  \<^verbatim>\<open>view\<close> keeps the data and replaces the shape. A size \<open>None\<close> is Python's \<^verbatim>\<open>-1\<close>: it is
  inferred from the number of elements, which torch refuses when the other sizes multiply
  to zero (the inferred size is ambiguous) or do not divide the number of elements.
\<close>

definition known_sizes :: "nat option list \<Rightarrow> nat" where
  "known_sizes sizes = prod_list (map (\<lambda>s. case s of None \<Rightarrow> 1 | Some d \<Rightarrow> d) sizes)"

definition view :: "'a tensor \<Rightarrow> nat option list \<Rightarrow> error + 'a tensor" where
  "view t sizes =
     (let k = known_sizes sizes; n = numel t in
      if length (filter (\<lambda>s. s = None) sizes) > 1 then Inl RuntimeError
      else if None \<in> set sizes then
        (if k = 0 \<or> n mod k \<noteq> 0 then Inl RuntimeError
         else Inr (t\<lparr>shape := map (\<lambda>s. case s of None \<Rightarrow> n div k | Some d \<Rightarrow> d) sizes\<rparr>))
      else if k \<noteq> n then Inl RuntimeError
      else Inr (t\<lparr>shape := map (\<lambda>s. case s of None \<Rightarrow> 0 | Some d \<Rightarrow> d) sizes\<rparr>))"

text \<open>
  \<^verbatim>\<open>permute(p)\<close>: axis \<open>k\<close> of the result is axis \<open>p ! k\<close> of the argument, so the element
  at index \<open>ix\<close> of the result is the argument's element whose index has \<open>ix ! k\<close> at
  position \<open>p ! k\<close>. \<^verbatim>\<open>contiguous()\<close> lays the result out in row-major order.
\<close>

definition is_perm :: "nat list \<Rightarrow> nat \<Rightarrow> bool" where
  "is_perm p r \<longleftrightarrow> length p = r \<and> list_all (\<lambda>k. k \<in> set p) [0..<r]"

definition inv_perm :: "nat list \<Rightarrow> nat list" where
  "inv_perm p = map (\<lambda>m. length (takeWhile (\<lambda>k. k \<noteq> m) p)) [0..<length p]"

definition permute :: "'a tensor \<Rightarrow> nat list \<Rightarrow> error + 'a tensor" where
  "permute t p =
     (if \<not> is_perm p (length (shape t)) then Inl RuntimeError
      else Inr (tabulate (map ((!) (shape t)) p)
                  (\<lambda>ix. get_at t (map ((!) ix) (inv_perm p)))))"

section \<open>Squeeze2d\<close>

text \<open>
  \<^verbatim>\<open>factor\<close> is a natural number: every factor below 1 fails the first assertion.
  \<^verbatim>\<open>x.shape[k]\<close> raises IndexError on a tensor of too small a rank.
  \<^verbatim>\<open>int(nc / factor ** 2)\<close> truncates the quotient of two non-negative integers.
\<close>

definition unsqueeze :: "'a tensor \<Rightarrow> nat \<Rightarrow> error + 'a tensor" where
  "unsqueeze x factor =
     (if \<not> 1 \<le> factor then Inl AssertionError
      else if factor = 1 then Inr x
      else if length (shape x) < 4 then Inl IndexError
      else
        let nc = shape x ! 1; nh = shape x ! 2; nw = shape x ! 3 in
        if \<not> (4 \<le> nc \<and> nc mod 4 = 0) then Inl AssertionError
        else
          bnd (view x [None, Some (nc div factor ^ 2), Some factor, Some factor,
                       Some nh, Some nw]) (\<lambda>x.
          bnd (permute x [0, 1, 4, 2, 5, 3]) (\<lambda>x.
          view x [None, Some (nc div factor ^ 2), Some (nh * factor), Some (nw * factor)])))"

definition squeeze :: "'a tensor \<Rightarrow> nat \<Rightarrow> error + 'a tensor" where
  "squeeze x factor =
     (if \<not> 1 \<le> factor then Inl AssertionError
      else if factor = 1 then Inr x
      else if length (shape x) < 4 then Inl IndexError
      else
        let nc = shape x ! 1; nh = shape x ! 2; nw = shape x ! 3 in
        if \<not> (nh mod factor = 0 \<and> nw mod factor = 0) then Inl AssertionError
        else
          bnd (view x [None, Some nc, Some (nh div factor), Some factor,
                       Some (nw div factor), Some factor]) (\<lambda>x.
          bnd (permute x [0, 1, 3, 5, 2, 4]) (\<lambda>x.
          view x [None, Some (nc * factor * factor), Some (nh div factor),
                  Some (nw div factor)])))"


definition Squeeze2d_forward ::
  "nat \<Rightarrow> 'a tensor \<Rightarrow> 'b option \<Rightarrow> bool \<Rightarrow> error + ('a tensor \<times> 'b option)" where
  "Squeeze2d_forward factor x logdet reverse =
     bnd (if \<not> reverse then squeeze x factor else unsqueeze x factor)
       (\<lambda>output. Inr (output, logdet))"

section \<open>Elementwise operations, broadcasting and reductions\<close>

definition tmap :: "('a \<Rightarrow> 'b) \<Rightarrow> 'a tensor \<Rightarrow> 'b tensor" where
  "tmap f t = \<lparr>shape = shape t, data = map f (data t)\<rparr>"

definition zeros :: "nat list \<Rightarrow> real tensor" where
  "zeros sh = \<lparr>shape = sh, data = replicate (prod_list sh) 0\<rparr>"

text \<open>
  Broadcasting aligns two shapes at their last axes; two sizes are compatible when they
  are equal or one of them is 1. \<open>bcast_index sh ix\<close> is the index into an operand of
  shape \<open>sh\<close> that the result's index \<open>ix\<close> reads.
\<close>

fun broadcast_rev :: "nat list \<Rightarrow> nat list \<Rightarrow> nat list option" where
  "broadcast_rev [] ys = Some ys"
| "broadcast_rev xs [] = Some xs"
| "broadcast_rev (x # xs) (y # ys) =
     (if x = y \<or> y = 1 then map_option ((#) x) (broadcast_rev xs ys)
      else if x = 1 then map_option ((#) y) (broadcast_rev xs ys)
      else None)"

definition broadcast_shapes :: "nat list \<Rightarrow> nat list \<Rightarrow> nat list option" where
  "broadcast_shapes a b = map_option rev (broadcast_rev (rev a) (rev b))"

definition bcast_index :: "nat list \<Rightarrow> nat list \<Rightarrow> nat list" where
  "bcast_index sh ix =
     map (\<lambda>(d, i). if d = 1 then 0 else i) (zip sh (drop (length ix - length sh) ix))"

definition bin_op :: "('a \<Rightarrow> 'b \<Rightarrow> 'c) \<Rightarrow> 'a tensor \<Rightarrow> 'b tensor \<Rightarrow> error + 'c tensor" where
  "bin_op f a b =
     (case broadcast_shapes (shape a) (shape b) of
        None \<Rightarrow> Inl RuntimeError
      | Some sh \<Rightarrow>
          Inr (tabulate sh (\<lambda>ix. f (get_at a (bcast_index (shape a) ix))
                                   (get_at b (bcast_index (shape b) ix)))))"

text \<open>
  An in-place operation (\<^verbatim>\<open>a += b\<close>, \<^verbatim>\<open>a *= b\<close>, \<^verbatim>\<open>a.copy_(b)\<close>) on a tensor \<open>a\<close>
  broadcasts \<open>b\<close> to the shape of \<open>a\<close>; torch refuses it when the broadcast shape is not
  the shape of \<open>a\<close>.
\<close>

definition inplace_op :: "('a \<Rightarrow> 'b \<Rightarrow> 'a) \<Rightarrow> 'a tensor \<Rightarrow> 'b tensor \<Rightarrow> error + 'a tensor" where
  "inplace_op f a b =
     bnd (bin_op f a b) (\<lambda>r. if shape r = shape a then Inr r else Inl RuntimeError)"

definition copy_into :: "'a tensor \<Rightarrow> 'a tensor \<Rightarrow> error + 'a tensor" where
  "copy_into dst src = inplace_op (\<lambda>d s. s) dst src"

definition torch_sum :: "real tensor \<Rightarrow> real tensor" where
  "torch_sum t = \<lparr>shape = [], data = [sum_list (data t)]\<rparr>"

text \<open>
  Reduction over the axes \<open>dims\<close>, keeping them with size 1: an element of the result sums
  the elements of the argument whose index agrees with its own outside \<open>dims\<close>.
\<close>

definition keep_shape :: "nat list \<Rightarrow> nat list \<Rightarrow> nat list" where
  "keep_shape dims sh = map (\<lambda>k. if k \<in> set dims then 1 else sh ! k) [0..<length sh]"

definition sum_keepdim :: "nat list \<Rightarrow> real tensor \<Rightarrow> real tensor" where
  "sum_keepdim dims t =
     (let osh = keep_shape dims (shape t) in
      tabulate osh (\<lambda>ix. sum_list (map (\<lambda>j. data t ! j)
        (filter (\<lambda>j. bcast_index osh (unravel (shape t) j) = ix) [0..<numel t]))))"

definition reduced_count :: "nat list \<Rightarrow> nat list \<Rightarrow> nat" where
  "reduced_count dims sh = prod_list (map (\<lambda>k. sh ! k) (filter (\<lambda>k. k \<in> set dims) [0..<length sh]))"

text \<open>
  Modelled from the spec: \<^verbatim>\<open>ops.reduce_mean\<close> and \<^verbatim>\<open>ops.reduce_sum\<close> of \<^verbatim>\<open>misc/ops.py\<close>, which
  is not among the sources. The spec has the bias as the mean "over batch+spatial dims per
  channel", the variance "either per-channel (default) or pooled across channels", and the
  Gaussian log-density "summed over all non-batch axes to yield a per-batch-element
  scalar". \<open>reduce_mean x (Some dims)\<close> is the call with \<^verbatim>\<open>dim=dims, keepdim=True\<close>;
  \<open>reduce_mean x None\<close> is the call without \<^verbatim>\<open>dim\<close>, the mean of all elements as a tensor
  of no axes. The mean of no elements is \<open>nan\<close>.
\<close>

definition reduce_mean :: "real tensor \<Rightarrow> nat list option \<Rightarrow> error + real tensor" where
  "reduce_mean x axes =
     (case axes of
        None \<Rightarrow>
          if numel x = 0 then Inl NonFinite
          else Inr (tmap (\<lambda>v. v / real (numel x)) (torch_sum x))
      | Some dims \<Rightarrow>
          if list_ex (\<lambda>d. length (shape x) \<le> d) dims then Inl IndexError
          else if reduced_count dims (shape x) = 0 \<and> prod_list (keep_shape dims (shape x)) \<noteq> 0
          then Inl NonFinite
          else Inr (tmap (\<lambda>v. v / real (reduced_count dims (shape x))) (sum_keepdim dims x)))"

definition reduce_sum :: "real tensor \<Rightarrow> nat list \<Rightarrow> error + real tensor" where
  "reduce_sum x dims =
     (if list_ex (\<lambda>d. length (shape x) \<le> d) dims then Inl IndexError
      else Inr ((sum_keepdim dims x)
             \<lparr>shape := map (\<lambda>k. shape x ! k) (filter (\<lambda>k. k \<notin> set dims) [0..<length (shape x)])\<rparr>))"

section \<open>ActNorm\<close>

text \<open>
  The module's attributes, with \<^verbatim>\<open>training\<close> the mode flag of \<^verbatim>\<open>nn.Module\<close> that the
  caller switches with \<^verbatim>\<open>train()\<close> and \<^verbatim>\<open>eval()\<close>. A method that mutates the module returns
  the module's new state.
\<close>

record ActNorm =
  an_num_channels :: nat
  an_scale :: real
  an_logscale_factor :: real
  an_batch_variance :: bool
  an_bias_inited :: bool
  an_logs_inited :: bool
  an_bias :: "real tensor"
  an_logs :: "real tensor"
  an_training :: bool

definition ActNorm_init :: "nat \<Rightarrow> real \<Rightarrow> real \<Rightarrow> bool \<Rightarrow> ActNorm" where
  "ActNorm_init num_channels scale logscale_factor batch_variance =
     \<lparr>an_num_channels = num_channels, an_scale = scale,
      an_logscale_factor = logscale_factor, an_batch_variance = batch_variance,
      an_bias_inited = False, an_logs_inited = False,
      an_bias = zeros [1, num_channels, 1, 1], an_logs = zeros [1, num_channels, 1, 1],
      an_training = True\<rparr>"

definition initialize_bias :: "ActNorm \<Rightarrow> real tensor \<Rightarrow> error + ActNorm" where
  "initialize_bias self x =
     (if \<not> an_training self then Inr self
      else
        bnd (reduce_mean x (Some [0, 2, 3])) (\<lambda>m.
        let x_mean = tmap (\<lambda>v. - 1 * v) m in
        bnd (copy_into (an_bias self) x_mean) (\<lambda>b.
        Inr (self\<lparr>an_bias := b, an_bias_inited := True\<rparr>))))"

text \<open>
  \<^verbatim>\<open>torch.log(self.scale / (torch.sqrt(x_var) + 1e-6)) / self.logscale_factor\<close>: the
  argument of the logarithm has the sign of \<^verbatim>\<open>scale\<close>, and the result is not finite when
  that is not positive or when \<^verbatim>\<open>logscale_factor\<close> is zero.
\<close>

definition initialize_logs :: "ActNorm \<Rightarrow> real tensor \<Rightarrow> error + ActNorm" where
  "initialize_logs self x =
     (if \<not> an_training self then Inr self
      else
        bnd (if an_batch_variance self then reduce_mean (tmap (\<lambda>v. v ^ 2) x) None
             else reduce_mean (tmap (\<lambda>v. v ^ 2) x) (Some [0, 2, 3])) (\<lambda>x_var.
        if data x_var \<noteq> [] \<and> (an_scale self \<le> 0 \<or> an_logscale_factor self = 0)
        then Inl NonFinite
        else
          let logs = tmap (\<lambda>v. ln (an_scale self / (sqrt v + 1 / 10 ^ 6))
                                 / an_logscale_factor self) x_var in
          bnd (copy_into (an_logs self) logs) (\<lambda>l.
          Inr (self\<lparr>an_logs := l, an_logs_inited := True\<rparr>))))"

definition actnorm_center :: "ActNorm \<Rightarrow> real tensor \<Rightarrow> bool \<Rightarrow> error + ActNorm \<times> real tensor" where
  "actnorm_center self x reverse =
     bnd (if \<not> an_bias_inited self then initialize_bias self x else Inr self) (\<lambda>self.
     bnd (if \<not> reverse then bin_op (+) x (an_bias self) else bin_op (-) x (an_bias self))
       (\<lambda>y. Inr (self, y)))"

definition actnorm_scale ::
  "ActNorm \<Rightarrow> real tensor \<Rightarrow> real tensor option \<Rightarrow> bool
   \<Rightarrow> error + ActNorm \<times> real tensor \<times> real tensor option" where
  "actnorm_scale self x logdet reverse =
     bnd (if \<not> an_logs_inited self then initialize_logs self x else Inr self) (\<lambda>self.
     let logs = tmap (\<lambda>v. v * an_logscale_factor self) (an_logs self) in
     bnd (if \<not> reverse then bin_op (*) x (tmap exp logs)
          else bin_op (*) x (tmap exp (tmap uminus logs))) (\<lambda>x.
     case logdet of
       None \<Rightarrow> Inr (self, x, None)
     | Some ld \<Rightarrow>
         if length (shape x) < 4 then Inl IndexError
         else
           let logdet_factor = shape x ! 2 * shape x ! 3;
               dlogdet = tmap (\<lambda>v. v * real logdet_factor) (torch_sum logs);
               dlogdet = (if reverse then tmap (\<lambda>v. v * - 1) dlogdet else dlogdet)
           in bnd (inplace_op (+) ld dlogdet) (\<lambda>ld. Inr (self, x, Some ld))))"

definition ActNorm_forward ::
  "ActNorm \<Rightarrow> real tensor \<Rightarrow> real tensor option \<Rightarrow> bool
   \<Rightarrow> error + ActNorm \<times> real tensor \<times> real tensor option" where
  "ActNorm_forward self x logdet reverse =
     (if length (shape x) \<noteq> 4 then Inl AssertionError
      else if shape x ! 1 \<noteq> an_num_channels self then Inl AssertionError
      else if \<not> reverse then
        bnd (actnorm_center self x reverse) (\<lambda>(self, x).
        actnorm_scale self x logdet reverse)
      else
        bnd (actnorm_scale self x logdet reverse) (\<lambda>(self, x, logdet).
        bnd (actnorm_center self x reverse) (\<lambda>(self, x). Inr (self, x, logdet))))"

text \<open>
  The shapes that \<^verbatim>\<open>__init__\<close> gives the two parameters; no method changes them.
\<close>

definition an_ok :: "ActNorm \<Rightarrow> bool" where
  "an_ok self \<longleftrightarrow>
     shape (an_bias self) = [1, an_num_channels self, 1, 1] \<and> wf_tensor (an_bias self) \<and>
     shape (an_logs self) = [1, an_num_channels self, 1, 1] \<and> wf_tensor (an_logs self)"

text \<open>
  The layer's log-determinant on an input of \<open>k\<close> pixels:
  \<^verbatim>\<open>torch.sum(self.logs * self.logscale_factor) * k\<close>.
\<close>

definition dlog :: "ActNorm \<Rightarrow> nat \<Rightarrow> real" where
  "dlog self k = sum_list (map (\<lambda>v. v * an_logscale_factor self) (data (an_logs self))) * real k"

text \<open>
  A caller's use of one layer over time: before each call it sets the mode, then calls
  \<^verbatim>\<open>forward\<close>. \<open>run\<close> threads the module through the calls and stops at the first
  exception.
\<close>

record call =
  call_training :: bool
  call_x :: "real tensor"
  call_logdet :: "real tensor option"
  call_reverse :: bool

fun run :: "ActNorm \<Rightarrow> call list \<Rightarrow> error + ActNorm" where
  "run self [] = Inr self"
| "run self (c # cs) =
     bnd (ActNorm_forward (self\<lparr>an_training := call_training c\<rparr>)
            (call_x c) (call_logdet c) (call_reverse c))
       (\<lambda>(self, y, logdet). run self cs)"

section \<open>Permutation2d\<close>

text \<open>
  \<^verbatim>\<open>x[:, idx, :, :]\<close> with an integer array \<open>idx\<close>: channel \<open>k\<close> of the result is channel
  \<open>idx ! k\<close> of \<open>x\<close>; an index beyond the channels of \<open>x\<close>, or a tensor of fewer than four
  axes, raises IndexError.
\<close>

definition index_channels :: "'a tensor \<Rightarrow> nat list \<Rightarrow> error + 'a tensor" where
  "index_channels x idx =
     (if length (shape x) < 4 then Inl IndexError
      else if list_ex (\<lambda>k. shape x ! 1 \<le> k) idx then Inl IndexError
      else Inr (tabulate ((shape x)[1 := length idx])
                  (\<lambda>ix. get_at x (ix[1 := idx ! (ix ! 1)]))))"

record Permutation2d =
  pm_num_channels :: nat
  pm_indices :: "nat list"
  pm_indices_inverse :: "nat list"

text \<open>The loop \<^verbatim>\<open>for i in range(num_channels): indices_inverse[indices[i]] = i\<close>.\<close>

fun invert_indices :: "nat list \<Rightarrow> nat list \<Rightarrow> nat list \<Rightarrow> error + nat list" where
  "invert_indices indices indices_inverse [] = Inr indices_inverse"
| "invert_indices indices indices_inverse (i # rest) =
     (if length indices \<le> i then Inl IndexError
      else if length indices_inverse \<le> indices ! i then Inl IndexError
      else invert_indices indices (indices_inverse[indices ! i := i]) rest)"

text \<open>
  \<open>shuffled\<close> stands for \<^verbatim>\<open>np.random.shuffle\<close>: the function that the random generator
  applies to the array, which returns a permutation of its argument.
\<close>

definition Permutation2d_init ::
  "nat \<Rightarrow> bool \<Rightarrow> (nat list \<Rightarrow> nat list) \<Rightarrow> error + Permutation2d" where
  "Permutation2d_init num_channels shuffle shuffled =
     (let indices = rev [0..<num_channels];
          indices = (if shuffle then shuffled indices else indices)
      in bnd (invert_indices indices (replicate num_channels 0) [0..<num_channels])
           (\<lambda>indices_inverse.
              Inr \<lparr>pm_num_channels = num_channels, pm_indices = indices,
                   pm_indices_inverse = indices_inverse\<rparr>))"

definition Permutation2d_forward :: "Permutation2d \<Rightarrow> 'a tensor \<Rightarrow> bool \<Rightarrow> error + 'a tensor" where
  "Permutation2d_forward self x reverse =
     (if length (shape x) \<noteq> 4 then Inl AssertionError
      else if \<not> reverse then index_channels x (pm_indices self)
      else index_channels x (pm_indices_inverse self))"

section \<open>Values that are not finite\<close>

text \<open>
  A float is a finite number, an infinity or \<open>nan\<close>. \<open>xreal\<close> adds the three special
  values to the reals, with the sums and products that IEEE 754 gives them: \<open>nan\<close> absorbs,
  \<open>inf - inf\<close> and \<open>0 * inf\<close> are \<open>nan\<close>. The layers below are stated for tensors of reals;
  where a claim depends on an input that is not finite, the same operation is stated for
  tensors of \<open>xreal\<close>.
\<close>

datatype xreal = Fin real | PInf | NInf | NaN

instantiation xreal :: "{comm_monoid_add, times}"
begin

definition zero_xreal :: xreal where
  "zero_xreal = Fin 0"

fun plus_xreal :: "xreal \<Rightarrow> xreal \<Rightarrow> xreal" where
  "plus_xreal NaN b = NaN"
| "plus_xreal a NaN = NaN"
| "plus_xreal (Fin a) (Fin b) = Fin (a + b)"
| "plus_xreal (Fin a) b = b"
| "plus_xreal a (Fin b) = a"
| "plus_xreal PInf PInf = PInf"
| "plus_xreal NInf NInf = NInf"
| "plus_xreal PInf NInf = NaN"
| "plus_xreal NInf PInf = NaN"

fun times_xreal :: "xreal \<Rightarrow> xreal \<Rightarrow> xreal" where
  "times_xreal NaN b = NaN"
| "times_xreal a NaN = NaN"
| "times_xreal (Fin a) (Fin b) = Fin (a * b)"
| "times_xreal (Fin a) PInf = (if a = 0 then NaN else if 0 < a then PInf else NInf)"
| "times_xreal (Fin a) NInf = (if a = 0 then NaN else if 0 < a then NInf else PInf)"
| "times_xreal PInf (Fin b) = (if b = 0 then NaN else if 0 < b then PInf else NInf)"
| "times_xreal NInf (Fin b) = (if b = 0 then NaN else if 0 < b then NInf else PInf)"
| "times_xreal PInf PInf = PInf"
| "times_xreal NInf NInf = PInf"
| "times_xreal PInf NInf = NInf"
| "times_xreal NInf PInf = NInf"

instance
proof
  fix a b c :: xreal
  show "a + b + c = a + (b + c)"
    by (cases a; cases b; cases c) simp_all
  show "a + b = b + a"
    by (cases a; cases b) simp_all
  show "0 + a = a"
    by (cases a) (simp_all add: zero_xreal_def)
qed

end

section \<open>Convolution and linear layers\<close>

text \<open>
  \<^verbatim>\<open>F.conv2d(x, w, b, stride, padding, dilation, groups)\<close> on a batched input \<open>(N, C, H, W)\<close>
  and a weight \<open>(C_out, C / groups, kH, kW)\<close>, with zero padding: output channel \<open>o\<close>
  reads the input channels of its group. torch raises RuntimeError on shapes that do not
  fit, on a negative padding and on a kernel larger than the padded input.
\<close>

definition padded :: "'a::zero tensor \<Rightarrow> nat \<Rightarrow> nat \<Rightarrow> nat \<Rightarrow> nat \<Rightarrow> nat \<Rightarrow> nat \<Rightarrow> 'a" where
  "padded x ph pw n c r q =
     (if r < ph \<or> shape x ! 2 \<le> r - ph \<or> q < pw \<or> shape x ! 3 \<le> q - pw then 0
      else get_at x [n, c, r - ph, q - pw])"

definition conv_out :: "nat \<Rightarrow> nat \<Rightarrow> nat \<Rightarrow> nat \<Rightarrow> nat \<Rightarrow> nat" where
  "conv_out sz k p stride dilation = (sz + 2 * p - dilation * (k - 1) - 1) div stride + 1"

text \<open>The element of the result at index \<open>ix = [n, o, i, j]\<close>.\<close>

definition conv2d_elem ::
  "'a::{monoid_add,times} tensor \<Rightarrow> 'a tensor \<Rightarrow> 'a tensor option \<Rightarrow> nat \<Rightarrow> nat \<Rightarrow> nat
   \<Rightarrow> nat \<Rightarrow> nat \<Rightarrow> nat list \<Rightarrow> 'a" where
  "conv2d_elem x w b stride ph pw dilation groups ix =
     (case b of None \<Rightarrow> 0 | Some bt \<Rightarrow> data bt ! (ix ! 1)) +
     sum_list (map (\<lambda>(ci, ki, kj).
         get_at w [ix ! 1, ci, ki, kj] *
         padded x ph pw (ix ! 0) ((ix ! 1) div (shape w ! 0 div groups) * shape w ! 1 + ci)
           (ix ! 2 * stride + ki * dilation) (ix ! 3 * stride + kj * dilation))
       (List.product [0..<shape w ! 1] (List.product [0..<shape w ! 2] [0..<shape w ! 3])))"

definition conv2d ::
  "'a::{monoid_add,times} tensor \<Rightarrow> 'a tensor \<Rightarrow> 'a tensor option \<Rightarrow> nat \<Rightarrow> int \<times> int
   \<Rightarrow> nat \<Rightarrow> nat \<Rightarrow> error + 'a tensor" where
  "conv2d x w b stride padding dilation groups =
     (if length (shape x) \<noteq> 4 \<or> length (shape w) \<noteq> 4 then Inl RuntimeError
      else if fst padding < 0 \<or> snd padding < 0 then Inl RuntimeError
      else
        let n = shape x ! 0; c = shape x ! 1; h = shape x ! 2; wd = shape x ! 3;
            co = shape w ! 0; cg = shape w ! 1; kh = shape w ! 2; kw = shape w ! 3;
            ph = nat (fst padding); pw = nat (snd padding)
        in
        if groups = 0 \<or> stride = 0 \<or> dilation = 0 \<or> kh = 0 \<or> kw = 0 then Inl RuntimeError
        else if c \<noteq> cg * groups \<or> co mod groups \<noteq> 0 then Inl RuntimeError
        else if (case b of None \<Rightarrow> False | Some bt \<Rightarrow> shape bt \<noteq> [co]) then Inl RuntimeError
        else if h + 2 * ph < dilation * (kh - 1) + 1 \<or> wd + 2 * pw < dilation * (kw - 1) + 1
        then Inl RuntimeError
        else
          Inr (tabulate [n, co, conv_out h kh ph stride dilation, conv_out wd kw pw stride dilation]
                 (conv2d_elem x w b stride ph pw dilation groups)))"

text \<open>
  \<^verbatim>\<open>nn.Conv2d\<close>: the attributes that \<^verbatim>\<open>forward\<close> reads. Its constructor refuses group
  counts that do not divide the channel counts and draws the initial parameters at
  random; \<open>rnd\<close> gives the value drawn at each index.
\<close>

record nn_Conv2d =
  cv_weight :: "real tensor"
  cv_bias :: "real tensor option"
  cv_stride :: nat
  cv_padding :: "int \<times> int"
  cv_dilation :: nat
  cv_groups :: nat

definition nn_Conv2d_init ::
  "nat \<Rightarrow> nat \<Rightarrow> nat \<times> nat \<Rightarrow> nat \<Rightarrow> int \<times> int \<Rightarrow> nat \<Rightarrow> nat \<Rightarrow> bool \<Rightarrow> (nat list \<Rightarrow> real)
   \<Rightarrow> error + nn_Conv2d" where
  "nn_Conv2d_init in_channels out_channels kernel_size stride padding dilation groups bias rnd =
     (if groups = 0 \<or> in_channels mod groups \<noteq> 0 \<or> out_channels mod groups \<noteq> 0
      then Inl ValueError
      else Inr \<lparr>cv_weight = tabulate [out_channels, in_channels div groups,
                                       fst kernel_size, snd kernel_size] rnd,
                cv_bias = (if bias then Some (tabulate [out_channels] rnd) else None),
                cv_stride = stride, cv_padding = padding, cv_dilation = dilation,
                cv_groups = groups\<rparr>)"

definition nn_Conv2d_forward :: "'z nn_Conv2d_scheme \<Rightarrow> real tensor \<Rightarrow> error + real tensor" where
  "nn_Conv2d_forward self x =
     conv2d x (cv_weight self) (cv_bias self) (cv_stride self) (cv_padding self)
       (cv_dilation self) (cv_groups self)"

text \<open>
  \<^verbatim>\<open>Conv2d.get_padding\<close>. The kernel size is the pair; an \<^verbatim>\<open>int\<close> \<open>k\<close> is the pair \<open>(k, k)\<close>.
  Python's \<^verbatim>\<open>//\<close> rounds down, as \<open>div\<close> on the integers does.
\<close>

definition get_padding :: "string \<Rightarrow> nat \<times> nat \<Rightarrow> nat \<Rightarrow> error + int \<times> int" where
  "get_padding padding_type kernel_size stride =
     (if padding_type \<notin> {''SAME'', ''VALID''} then Inl AssertionError
      else if padding_type = ''SAME'' then
        (if stride \<noteq> 1 then Inl AssertionError
         else Inr ((int (fst kernel_size) - 1) div 2, (int (snd kernel_size) - 1) div 2))
      else Inr (0, 0))"

subsection \<open>Conv2dZeros\<close>

record Conv2dZeros = nn_Conv2d +
  cz_logscale_factor :: real
  cz_logs :: "real tensor"

text \<open>\<^verbatim>\<open>self.bias.data.zero_()\<close> raises AttributeError when the layer has no bias.\<close>

definition Conv2dZeros_init ::
  "nat \<Rightarrow> nat \<Rightarrow> nat \<times> nat \<Rightarrow> nat \<Rightarrow> string \<Rightarrow> real \<Rightarrow> nat \<Rightarrow> nat \<Rightarrow> bool \<Rightarrow> (nat list \<Rightarrow> real)
   \<Rightarrow> error + Conv2dZeros" where
  "Conv2dZeros_init in_channels out_channels kernel_size stride padding_type logscale_factor
       dilation groups bias rnd =
     bnd (get_padding padding_type kernel_size stride) (\<lambda>padding.
     bnd (nn_Conv2d_init in_channels out_channels kernel_size stride padding dilation groups
            bias rnd) (\<lambda>base.
     case cv_bias base of
       None \<Rightarrow> Inl AttributeError
     | Some b \<Rightarrow>
         Inr \<lparr>cv_weight = zeros (shape (cv_weight base)), cv_bias = Some (zeros (shape b)),
              cv_stride = cv_stride base, cv_padding = cv_padding base,
              cv_dilation = cv_dilation base, cv_groups = cv_groups base,
              cz_logscale_factor = logscale_factor,
              cz_logs = zeros [out_channels, 1, 1]\<rparr>))"

definition Conv2dZeros_forward :: "Conv2dZeros \<Rightarrow> real tensor \<Rightarrow> error + real tensor" where
  "Conv2dZeros_forward self x =
     bnd (nn_Conv2d_forward self x) (\<lambda>x.
     inplace_op (*) x (tmap exp (tmap (\<lambda>v. v * cz_logscale_factor self) (cz_logs self))))"

text \<open>
  The same \<^verbatim>\<open>forward\<close> on an input whose entries need not be finite; the parameters are
  the layer's finite ones.
\<close>

definition Conv2dZeros_forward_ext :: "Conv2dZeros \<Rightarrow> xreal tensor \<Rightarrow> error + xreal tensor" where
  "Conv2dZeros_forward_ext self x =
     bnd (conv2d x (tmap Fin (cv_weight self)) (map_option (tmap Fin) (cv_bias self))
            (cv_stride self) (cv_padding self) (cv_dilation self) (cv_groups self)) (\<lambda>x.
     inplace_op (*) x
       (tmap Fin (tmap exp (tmap (\<lambda>v. v * cz_logscale_factor self) (cz_logs self)))))"

subsection \<open>LinearZeros\<close>

text \<open>
  \<^verbatim>\<open>F.linear(x, w, b)\<close>: the last axis of \<open>x\<close> is multiplied with the transposed weight
  \<open>(out_features, in_features)\<close>.
\<close>

definition linear ::
  "'a::{monoid_add,times} tensor \<Rightarrow> 'a tensor \<Rightarrow> 'a tensor option \<Rightarrow> error + 'a tensor" where
  "linear x w b =
     (if length (shape w) \<noteq> 2 \<or> shape x = [] then Inl RuntimeError
      else if last (shape x) \<noteq> shape w ! 1 then Inl RuntimeError
      else if (case b of None \<Rightarrow> False | Some bt \<Rightarrow> shape bt \<noteq> [shape w ! 0])
      then Inl RuntimeError
      else
        Inr (tabulate (butlast (shape x) @ [shape w ! 0])
          (\<lambda>ix. (case b of None \<Rightarrow> 0 | Some bt \<Rightarrow> data bt ! last ix) +
             sum_list (map (\<lambda>k. get_at x (butlast ix @ [k]) * get_at w [last ix, k])
                         [0..<shape w ! 1]))))"

record nn_Linear =
  ln_weight :: "real tensor"
  ln_bias :: "real tensor option"

record LinearZeros = nn_Linear +
  lz_logscale_factor :: real
  lz_logs :: "real tensor"

definition LinearZeros_init ::
  "nat \<Rightarrow> nat \<Rightarrow> bool \<Rightarrow> real \<Rightarrow> (nat list \<Rightarrow> real) \<Rightarrow> error + LinearZeros" where
  "LinearZeros_init in_features out_features bias logscale_factor rnd =
     (let weight = tabulate [out_features, in_features] rnd;
          b = (if bias then Some (tabulate [out_features] rnd) else None);
          weight = zeros (shape weight)
      in case b of
           None \<Rightarrow> Inl AttributeError
         | Some bt \<Rightarrow>
             Inr \<lparr>ln_weight = weight, ln_bias = Some (zeros (shape bt)),
                  lz_logscale_factor = logscale_factor, lz_logs = zeros [out_features]\<rparr>)"

definition LinearZeros_forward :: "LinearZeros \<Rightarrow> real tensor \<Rightarrow> error + real tensor" where
  "LinearZeros_forward self x =
     bnd (linear x (ln_weight self) (ln_bias self)) (\<lambda>output.
     inplace_op (*) output (tmap exp (tmap (\<lambda>v. v * lz_logscale_factor self) (lz_logs self))))"

text \<open>
  The same \<^verbatim>\<open>forward\<close> on an input whose entries need not be finite; the parameters are
  the layer's finite ones.
\<close>

definition LinearZeros_forward_ext :: "LinearZeros \<Rightarrow> xreal tensor \<Rightarrow> error + xreal tensor" where
  "LinearZeros_forward_ext self x =
     bnd (linear x (tmap Fin (ln_weight self)) (map_option (tmap Fin) (ln_bias self)))
       (\<lambda>output.
     inplace_op (*) output
       (tmap Fin (tmap exp (tmap (\<lambda>v. v * lz_logscale_factor self) (lz_logs self)))))"

subsection \<open>Conv2d\<close>

text \<open>
  \<^verbatim>\<open>F.normalize(x, p, dim)\<close> returns a new tensor, \<open>x\<close> divided by the \<open>p\<close>-norm along \<open>dim\<close>
  (at least \<^verbatim>\<open>1e-12\<close>), and leaves \<open>x\<close> as it is.
\<close>

definition normalize :: "real tensor \<Rightarrow> nat \<Rightarrow> nat \<Rightarrow> error + real tensor" where
  "normalize x p d =
     (if length (shape x) \<le> d then Inl IndexError
      else
        Inr (tabulate (shape x)
          (\<lambda>ix. get_at x ix /
             max (root p (sum_list (map (\<lambda>k. \<bar>get_at x (ix[d := k])\<bar> ^ p) [0..<shape x ! d])))
                 (1 / 10 ^ 12))))"

record Conv2d = nn_Conv2d +
  c2_do_weight_norm :: bool
  c2_do_actnorm :: bool
  c2_actnorm :: "ActNorm option"

text \<open>
  \<open>normal\<close> gives the values that \<^verbatim>\<open>self.weight.data.normal_(mean=0.0, std=0.05)\<close> draws.
  The attribute \<^verbatim>\<open>actnorm\<close> exists only when \<^verbatim>\<open>do_actnorm\<close> is set.
\<close>

definition Conv2d_init ::
  "nat \<Rightarrow> nat \<Rightarrow> nat \<times> nat \<Rightarrow> nat \<Rightarrow> string \<Rightarrow> bool \<Rightarrow> bool \<Rightarrow> nat \<Rightarrow> nat
   \<Rightarrow> (nat list \<Rightarrow> real) \<Rightarrow> (nat list \<Rightarrow> real) \<Rightarrow> error + Conv2d" where
  "Conv2d_init in_channels out_channels kernel_size stride padding_type do_weightnorm
       do_actnorm dilation groups rnd normal =
     bnd (get_padding padding_type kernel_size stride) (\<lambda>padding.
     bnd (nn_Conv2d_init in_channels out_channels kernel_size stride padding dilation groups
            (\<not> do_actnorm) rnd) (\<lambda>base.
     Inr \<lparr>cv_weight = tabulate (shape (cv_weight base)) normal,
          cv_bias = (if do_actnorm then cv_bias base
                     else map_option (\<lambda>b. zeros (shape b)) (cv_bias base)),
          cv_stride = cv_stride base, cv_padding = cv_padding base,
          cv_dilation = cv_dilation base, cv_groups = cv_groups base,
          c2_do_weight_norm = do_weightnorm, c2_do_actnorm = do_actnorm,
          c2_actnorm = (if do_actnorm then Some (ActNorm_init out_channels 1 3 False)
                        else None)\<rparr>))"

text \<open>
  The three \<^verbatim>\<open>F.normalize\<close> calls are expression statements: each is evaluated and its
  result dropped. The module's \<^verbatim>\<open>actnorm\<close> may initialise itself, so \<^verbatim>\<open>forward\<close> returns the
  module as well.
\<close>

definition Conv2d_forward :: "Conv2d \<Rightarrow> real tensor \<Rightarrow> error + Conv2d \<times> real tensor" where
  "Conv2d_forward self x =
     bnd (nn_Conv2d_forward self x) (\<lambda>x.
     bnd (if c2_do_weight_norm self then
            bnd (normalize x 2 0) (\<lambda>u.
            bnd (normalize x 2 2) (\<lambda>u.
            bnd (normalize x 2 3) (\<lambda>u. Inr ())))
          else Inr ()) (\<lambda>u.
     if c2_do_actnorm self then
       (case c2_actnorm self of
          None \<Rightarrow> Inl AttributeError
        | Some actnorm \<Rightarrow>
            bnd (ActNorm_forward actnorm x None False) (\<lambda>(actnorm, x, u).
            Inr (self\<lparr>c2_actnorm := Some actnorm\<rparr>, x)))
     else Inr (self, x)))"

section \<open>Invertible1x1Conv\<close>

text \<open>
  \<^verbatim>\<open>torch.det\<close> and \<^verbatim>\<open>Tensor.inverse\<close> of a square matrix: the determinant by expansion
  along the first row, the inverse as the adjugate over the determinant. A singular
  matrix has no inverse and torch raises.
\<close>

definition rows :: "real tensor \<Rightarrow> real list list" where
  "rows m = map (\<lambda>i. map (\<lambda>j. get_at m [i, j]) [0..<shape m ! 1]) [0..<shape m ! 0]"

definition del_at :: "nat \<Rightarrow> 'a list \<Rightarrow> 'a list" where
  "del_at j xs = take j xs @ drop (Suc j) xs"

function det_rows :: "real list list \<Rightarrow> real" where
  "det_rows [] = 1"
| "det_rows (r # rs) =
     sum_list (map (\<lambda>j. (- 1) ^ j * r ! j * det_rows (map (del_at j) rs)) [0..<length r])"
  by pat_completeness auto
termination
  by (relation "measure length") auto

definition torch_det :: "real tensor \<Rightarrow> error + real" where
  "torch_det m =
     (if length (shape m) \<noteq> 2 \<or> shape m ! 0 \<noteq> shape m ! 1 then Inl RuntimeError
      else Inr (det_rows (rows m)))"

definition torch_inverse :: "real tensor \<Rightarrow> error + real tensor" where
  "torch_inverse m =
     (if length (shape m) \<noteq> 2 \<or> shape m ! 0 \<noteq> shape m ! 1 then Inl RuntimeError
      else if det_rows (rows m) = 0 then Inl RuntimeError
      else
        Inr (tabulate (shape m)
          (\<lambda>ix. (- 1) ^ (ix ! 0 + ix ! 1)
                 * det_rows (map (del_at (ix ! 0)) (del_at (ix ! 1) (rows m)))
                 / det_rows (rows m))))"

record Invertible1x1Conv =
  iv_num_channels :: nat
  iv_lu_decomposed :: bool
  iv_weight :: "real tensor"

text \<open>\<open>w_init\<close> gives the entries of the random orthogonal matrix.\<close>

definition Invertible1x1Conv_init ::
  "nat \<Rightarrow> bool \<Rightarrow> (nat list \<Rightarrow> real) \<Rightarrow> error + Invertible1x1Conv" where
  "Invertible1x1Conv_init num_channels lu_decomposed w_init =
     (if lu_decomposed then Inl NotImplementedError
      else Inr \<lparr>iv_num_channels = num_channels, iv_lu_decomposed = lu_decomposed,
                iv_weight = tabulate [num_channels, num_channels] w_init\<rparr>)"

text \<open>The first line of \<^verbatim>\<open>forward\<close>: \<^verbatim>\<open>logdet_factor = x.shape[1] * x.shape[2]  # H * W\<close>.\<close>

definition Invertible1x1Conv_logdet_factor :: "'a tensor \<Rightarrow> nat" where
  "Invertible1x1Conv_logdet_factor x = shape x ! 1 * shape x ! 2"

text \<open>
  \<^verbatim>\<open>dlogdet\<close> is computed before the direction is looked at, and used only when there is an
  accumulator. The logarithm of a zero determinant is \<open>-inf\<close>.
\<close>

definition Invertible1x1Conv_forward ::
  "Invertible1x1Conv \<Rightarrow> real tensor \<Rightarrow> real tensor option \<Rightarrow> bool
   \<Rightarrow> error + real tensor \<times> real tensor option" where
  "Invertible1x1Conv_forward self x logdet reverse =
     (if length (shape x) < 3 then Inl IndexError
      else
        let logdet_factor = Invertible1x1Conv_logdet_factor x in
        bnd (torch_det (iv_weight self)) (\<lambda>d.
        let dlogdet = (if d = 0 then Inl NonFinite
                       else Inr \<lparr>shape = [], data = [ln \<bar>d\<bar> * real logdet_factor]\<rparr>)
        in
        if \<not> reverse then
          bnd (view (iv_weight self) (map Some (shape (iv_weight self) @ [1, 1]))) (\<lambda>weight.
          bnd (conv2d x weight None 1 (0, 0) 1 1) (\<lambda>z.
          case logdet of
            None \<Rightarrow> Inr (z, None)
          | Some ld \<Rightarrow>
              bnd dlogdet (\<lambda>dlogdet.
              bnd (inplace_op (+) ld dlogdet) (\<lambda>ld. Inr (z, Some ld)))))
        else
          bnd (torch_inverse (iv_weight self)) (\<lambda>wi.
          bnd (view wi (map Some (shape (iv_weight self) @ [1, 1]))) (\<lambda>weight.
          bnd (conv2d x weight None 1 (0, 0) 1 1) (\<lambda>z.
          case logdet of
            None \<Rightarrow> Inr (z, None)
          | Some ld \<Rightarrow>
              bnd dlogdet (\<lambda>dlogdet.
              bnd (inplace_op (-) ld dlogdet) (\<lambda>ld. Inr (z, Some ld))))))))"

section \<open>GaussianDiag and Split2d\<close>

text \<open>\<open>eps\<close> gives the standard normal value that \<^verbatim>\<open>torch.randn_like\<close> draws at each index.\<close>

definition GaussianDiag_eps :: "(nat list \<Rightarrow> real) \<Rightarrow> real tensor \<Rightarrow> real tensor" where
  "GaussianDiag_eps eps mean = tabulate (shape mean) eps"

definition flatten_sum :: "real tensor \<Rightarrow> error + real tensor" where
  "flatten_sum t =
     (if length (shape t) \<noteq> 4 then Inl AssertionError else reduce_sum t [1, 2, 3])"

definition logps :: "real tensor \<Rightarrow> real tensor \<Rightarrow> real tensor \<Rightarrow> error + real tensor" where
  "logps mean logs x =
     bnd (bin_op (-) x mean) (\<lambda>d.
     bnd (bin_op (/) (tmap (\<lambda>v. v ^ 2) d) (tmap exp (tmap (\<lambda>v. 2 * v) logs))) (\<lambda>q.
     bnd (bin_op (+) (tmap (\<lambda>v. ln (2 * pi) + v) (tmap (\<lambda>v. 2 * v) logs)) q) (\<lambda>s.
     Inr (tmap (\<lambda>v. - 0.5 * v) s))))"

definition logp :: "real tensor \<Rightarrow> real tensor \<Rightarrow> real tensor \<Rightarrow> error + real tensor" where
  "logp mean logs x = bnd (logps mean logs x) flatten_sum"

definition sample :: "(nat list \<Rightarrow> real) \<Rightarrow> real tensor \<Rightarrow> real tensor \<Rightarrow> error + real tensor" where
  "sample eps mean logs =
     bnd (bin_op (*) (tmap exp logs) (GaussianDiag_eps eps mean)) (\<lambda>t. bin_op (+) mean t)"

text \<open>\<^verbatim>\<open>torch.cat((a, b), dim=1)\<close>: the shapes have to agree outside axis 1.\<close>

definition cat1 :: "'a tensor \<Rightarrow> 'a tensor \<Rightarrow> error + 'a tensor" where
  "cat1 a b =
     (if length (shape a) < 2 then Inl IndexError
      else if (shape a)[1 := 0] \<noteq> (shape b)[1 := 0] then Inl RuntimeError
      else
        Inr (tabulate ((shape a)[1 := shape a ! 1 + shape b ! 1])
          (\<lambda>ix. if ix ! 1 < shape a ! 1 then get_at a ix
                 else get_at b (ix[1 := ix ! 1 - shape a ! 1]))))"

record Split2d =
  sp_num_channels :: nat
  sp_conv2d_zeros :: Conv2dZeros

definition Split2d_init :: "nat \<Rightarrow> (nat list \<Rightarrow> real) \<Rightarrow> error + Split2d" where
  "Split2d_init num_channels rnd =
     bnd (Conv2dZeros_init (num_channels div 2) num_channels (3, 3) 1 ''SAME'' 3 1 1 True rnd)
       (\<lambda>conv. Inr \<lparr>sp_num_channels = num_channels, sp_conv2d_zeros = conv\<rparr>)"

text \<open>
  The slices \<^verbatim>\<open>h[:, 0::2, :, :]\<close> and \<^verbatim>\<open>h[:, 1::2, :, :]\<close> take the even and the odd channels.
\<close>

definition prior :: "Split2d \<Rightarrow> real tensor \<Rightarrow> error + real tensor \<times> real tensor" where
  "prior self z =
     bnd (Conv2dZeros_forward (sp_conv2d_zeros self) z) (\<lambda>h.
     if length (shape h) < 4 then Inl IndexError
     else
       bnd (index_channels h (filter even [0..<shape h ! 1])) (\<lambda>mean.
       bnd (index_channels h (filter odd [0..<shape h ! 1])) (\<lambda>logs.
       Inr (mean, logs))))"

text \<open>
  In the branch for \<^verbatim>\<open>reverse=False\<close> the body reads the name \<^verbatim>\<open>input\<close>, not its parameter
  \<^verbatim>\<open>x\<close>. The module binds no such name, so it is Python's builtin function, which has no
  attribute \<^verbatim>\<open>shape\<close>: that is \<open>input_name = None\<close>. \<open>Some t\<close> stands for a module in which a
  global \<^verbatim>\<open>input\<close> has been bound to the tensor \<open>t\<close>. \<^verbatim>\<open>logdet += ...\<close> on \<^verbatim>\<open>None\<close> raises
  TypeError.
\<close>

definition Split2d_forward ::
  "real tensor option \<Rightarrow> (nat list \<Rightarrow> real) \<Rightarrow> Split2d \<Rightarrow> real tensor \<Rightarrow> real tensor option
   \<Rightarrow> bool \<Rightarrow> error + real tensor \<times> real tensor option" where
  "Split2d_forward input_name eps self x logdet reverse =
     (if \<not> reverse then
        (case input_name of
           None \<Rightarrow> Inl AttributeError
         | Some inp \<Rightarrow>
             if length (shape inp) < 2 then Inl IndexError
             else
               let nc = shape inp ! 1 in
               bnd (index_channels inp [0..<nc div 2]) (\<lambda>z1.
               bnd (index_channels inp [nc div 2..<nc]) (\<lambda>z2.
               bnd (prior self z1) (\<lambda>(mean, logs).
               bnd (logp mean logs z2) (\<lambda>lp.
               case logdet of
                 None \<Rightarrow> Inl TypeError
               | Some ld \<Rightarrow> bnd (inplace_op (+) ld lp) (\<lambda>ld. Inr (z1, Some ld)))))))
      else
        let z1 = x in
        bnd (prior self z1) (\<lambda>(mean, logs).
        bnd (sample eps mean logs) (\<lambda>z2.
        bnd (cat1 z1 z2) (\<lambda>z. Inr (z, logdet)))))"

text \<open>The shapes and settings that \<^verbatim>\<open>Split2d.__init__\<close> gives its convolution.\<close>

definition Split2d_ok :: "Split2d \<Rightarrow> bool" where
  "Split2d_ok self \<longleftrightarrow>
     (let conv = sp_conv2d_zeros self; c = sp_num_channels self in
      shape (cv_weight conv) = [c, c div 2, 3, 3] \<and>
      map_option shape (cv_bias conv) = Some [c] \<and>
      cv_stride conv = 1 \<and> cv_padding conv = (1, 1) \<and> cv_dilation conv = 1 \<and>
      cv_groups conv = 1 \<and> shape (cz_logs conv) = [c, 1, 1])"

section \<open>Proofs\<close>

lemma ravel_lt: "list_all2 (<) ix sh \<Longrightarrow> ravel sh ix < prod_list sh"
proof (induction sh ix rule: ravel.induct)
  case (1 d ds i ix)
  then have i: "i < d" and r: "ravel ds ix < prod_list ds" by auto
  have "i * prod_list ds + ravel ds ix < i * prod_list ds + prod_list ds" using r by simp
  also have "\<dots> = Suc i * prod_list ds" by simp
  also have "\<dots> \<le> d * prod_list ds" using i by (intro mult_le_mono1) simp
  finally show ?case by simp
qed auto

lemma unravel_length [simp]: "length (unravel sh j) = length sh"
  by (induction sh arbitrary: j) auto

lemma unravel_in_range: "j < prod_list sh \<Longrightarrow> list_all2 (<) (unravel sh j) sh"
proof (induction sh arbitrary: j)
  case (Cons d ds)
  then have pos: "0 < prod_list ds" by (cases "prod_list ds = 0") auto
  have "j div prod_list ds < d" using Cons.prems pos
    by (simp add: less_mult_imp_div_less mult.commute)
  moreover have "j mod prod_list ds < prod_list ds" using pos by simp
  ultimately show ?case using Cons.IH by simp
qed simp

lemma ravel_unravel: "j < prod_list sh \<Longrightarrow> ravel sh (unravel sh j) = j"
proof (induction sh arbitrary: j)
  case (Cons d ds)
  then have pos: "0 < prod_list ds" by (cases "prod_list ds = 0") auto
  then have "ravel ds (unravel ds (j mod prod_list ds)) = j mod prod_list ds"
    using Cons.IH by simp
  then show ?case by simp
qed simp

lemma unravel_ravel: "list_all2 (<) ix sh \<Longrightarrow> unravel sh (ravel sh ix) = ix"
proof (induction sh ix rule: ravel.induct)
  case (1 d ds i ix)
  then have r: "ravel ds ix < prod_list ds" and ih: "unravel ds (ravel ds ix) = ix"
    by (auto intro: ravel_lt)
  then show ?case by simp
qed auto

lemma get_at_tabulate: "list_all2 (<) ix sh \<Longrightarrow> get_at (tabulate sh f) ix = f ix"
  by (simp add: get_at_def tabulate_def ravel_lt unravel_ravel)

lemma tabulate_cong:
  assumes "\<And>ix. list_all2 (<) ix sh \<Longrightarrow> f ix = g ix"
  shows "tabulate sh f = tabulate sh g"
  using assms by (simp add: tabulate_def unravel_in_range)

lemma tabulate_get_at: "wf_tensor t \<Longrightarrow> tabulate (shape t) (get_at t) = t"
proof -
  assume w: "wf_tensor t"
  have "map (\<lambda>j. data t ! ravel (shape t) (unravel (shape t) j)) [0..<prod_list (shape t)]
        = map (\<lambda>j. data t ! j) [0..<prod_list (shape t)]"
    by (rule map_cong) (simp_all add: ravel_unravel)
  also have "\<dots> = data t" using w map_nth[of "data t"] by (simp add: wf_tensor_def)
  finally show ?thesis by (simp add: tabulate_def get_at_def)
qed

lemma shape_tabulate [simp]: "shape (tabulate sh f) = sh"
  by (simp add: tabulate_def)

lemma wf_tabulate [simp]: "wf_tensor (tabulate sh f)"
  by (simp add: tabulate_def wf_tensor_def)

lemma is_perm_set: "is_perm p r \<Longrightarrow> set p = {0..<r}"
proof -
  assume h: "is_perm p r"
  then have sub: "{0..<r} \<subseteq> set p" and len: "length p = r"
    by (auto simp: is_perm_def list_all_iff)
  have "card (set p) \<le> card {0..<r}" using len card_length[of p] by simp
  then show ?thesis using sub card_seteq[of "set p" "{0..<r}"] by auto
qed

lemma is_perm_distinct: "is_perm p r \<Longrightarrow> distinct p"
proof -
  assume h: "is_perm p r"
  have "card (set p) = length p" using is_perm_set[OF h] h by (simp add: is_perm_def)
  then show ?thesis by (rule card_distinct)
qed

lemma inv_perm_length [simp]: "length (inv_perm p) = length p"
  by (simp add: inv_perm_def)

lemma takeWhile_neq_less: "m \<in> set p \<Longrightarrow> length (takeWhile (\<lambda>k. k \<noteq> m) p) < length p"
  by (induct p) auto

lemma inv_perm_nth:
  assumes "m \<in> set p" "m < length p"
  shows "inv_perm p ! m < length p" "p ! (inv_perm p ! m) = m"
proof -
  let ?k = "length (takeWhile (\<lambda>k. k \<noteq> m) p)"
  have k: "?k < length p" using assms(1) by (rule takeWhile_neq_less)
  then have "p ! ?k = m" using nth_length_takeWhile[of "\<lambda>k. k \<noteq> m" p] by simp
  then show "inv_perm p ! m < length p" "p ! (inv_perm p ! m) = m"
    using k assms(2) by (simp_all add: inv_perm_def)
qed

lemma inv_perm_unique:
  assumes p: "is_perm p r" and q: "is_perm q r" and pq: "\<And>k. k < r \<Longrightarrow> p ! (q ! k) = k"
  shows "inv_perm q = p"
proof (rule nth_equalityI)
  show "length (inv_perm q) = length p" using p q by (simp add: is_perm_def)
next
  fix m assume "m < length (inv_perm q)"
  then have m: "m < r" using q by (simp add: is_perm_def)
  have lq: "length q = r" using q by (simp add: is_perm_def)
  have "m \<in> set q" using is_perm_set[OF q] m by simp
  then have a: "inv_perm q ! m < r" "q ! (inv_perm q ! m) = m"
    using inv_perm_nth[of m q] m lq by auto
  show "inv_perm q ! m = p ! m" using pq[OF a(1)] a(2) by simp
qed

lemma is_perm_nth_lt: "is_perm p r \<Longrightarrow> k < r \<Longrightarrow> p ! k < r"
  using is_perm_set[of p r] nth_mem[of k p] by (auto simp: is_perm_def)

lemma list_all2_nth_perm:
  assumes "list_all2 (<) ix sh" "is_perm p (length sh)"
  shows "list_all2 (<) (map ((!) ix) p) (map ((!) sh) p)"
proof -
  have l: "length ix = length sh" using assms(1) by (rule list_all2_lengthD)
  have "\<And>k. k \<in> set p \<Longrightarrow> ix ! k < sh ! k"
    using assms is_perm_set[OF assms(2)] by (auto simp: list_all2_conv_all_nth)
  then show ?thesis by (simp add: list_all2_conv_all_nth)
qed

lemma permute_permute:
  assumes w: "wf_tensor t"
    and p: "is_perm p (length (shape t))" and q: "is_perm q (length (shape t))"
    and pq: "\<And>k. k < length (shape t) \<Longrightarrow> p ! (q ! k) = k"
  shows "bnd (permute t p) (\<lambda>u. permute u q) = Inr t"
proof -
  let ?r = "length (shape t)"
  let ?sh1 = "map ((!) (shape t)) p"
  have lp: "length p = ?r" and lq: "length q = ?r" using p q by (simp_all add: is_perm_def)
  have sh2: "map ((!) ?sh1) q = shape t"
  proof (rule nth_equalityI)
    show "length (map ((!) ?sh1) q) = length (shape t)" using lq by simp
  next
    fix k assume "k < length (map ((!) ?sh1) q)"
    then have k: "k < ?r" using lq by simp
    then have "q ! k < ?r" using is_perm_nth_lt[OF q] by simp
    then show "map ((!) ?sh1) q ! k = shape t ! k" using k lp lq pq[OF k] by simp
  qed
  have invq: "inv_perm q = p" using inv_perm_unique[OF p q pq] by simp
  have body: "get_at (tabulate ?sh1 (\<lambda>ix. get_at t (map ((!) ix) (inv_perm p)))) (map ((!) ix) p)
        = get_at t ix" if ix: "list_all2 (<) ix (shape t)" for ix
  proof -
    have r1: "list_all2 (<) (map ((!) ix) p) ?sh1" using list_all2_nth_perm[OF ix p] .
    have lix: "length ix = ?r" using ix by (simp add: list_all2_lengthD)
    have eq: "map ((!) (map ((!) ix) p)) (inv_perm p) = ix"
    proof (rule nth_equalityI)
      show "length (map ((!) (map ((!) ix) p)) (inv_perm p)) = length ix" using lp lix by simp
    next
      fix m assume "m < length (map ((!) (map ((!) ix) p)) (inv_perm p))"
      then have m: "m < ?r" using lp by simp
      have "m \<in> set p" using is_perm_set[OF p] m by simp
      then have a: "inv_perm p ! m < ?r" "p ! (inv_perm p ! m) = m"
        using inv_perm_nth[of m p] m lp by auto
      then show "map ((!) (map ((!) ix) p)) (inv_perm p) ! m = ix ! m" using m lp by simp
    qed
    show ?thesis by (simp only: get_at_tabulate[OF r1] eq)
  qed
  have "tabulate (shape t) (\<lambda>ix. get_at (tabulate ?sh1 (\<lambda>ix. get_at t (map ((!) ix) (inv_perm p)))) (map ((!) ix) p))
        = tabulate (shape t) (get_at t)"
    by (rule tabulate_cong) (rule body)
  then show ?thesis using p q w sh2 invq
    by (simp add: bnd_def permute_def lp tabulate_get_at)
qed

lemma view_infer:
  assumes "0 < prod_list ds" "numel t = n * prod_list ds"
  shows "view t (None # map Some ds) = Inr (t\<lparr>shape := n # ds\<rparr>)"
proof -
  have k: "known_sizes (None # map Some ds) = prod_list ds"
    by (simp add: known_sizes_def comp_def)
  have f: "filter (\<lambda>s. s = None) (map Some ds) = []" by (induct ds) auto
  have m: "map (case_option n (\<lambda>d. d) \<circ> Some) ds = ds"
    by (simp add: comp_def)
  show ?thesis using assms by (simp add: view_def k f m Let_def)
qed

lemma squeeze_steps:
  assumes sh: "shape x = [n, c, h, w]" and wf: "wf_tensor x" and f2: "2 \<le> f"
    and hf: "h mod f = 0" and wf': "w mod f = 0" and h0: "0 < h" and w0: "0 < w"
    and c0: "0 < c"
  shows "\<exists>x2. shape x2 = [n, c, f, f, h div f, w div f]
           \<and> squeeze x f = Inr (x2\<lparr>shape := [n, c * f * f, h div f, w div f]\<rparr>)
           \<and> bnd (permute x2 [0, 1, 4, 2, 5, 3])
                 (\<lambda>x1. view x1 [None, Some c, Some (h div f * f), Some (w div f * f)]) = Inr x"
proof -
  let ?p = "[0, 1, 3, 5, 2, 4] :: nat list"
  let ?q = "[0, 1, 4, 2, 5, 3] :: nat list"
  define hh where "hh = h div f"
  define ww where "ww = w div f"
  have f0: "0 < f" using f2 by simp
  have hE: "h = hh * f" and wE: "w = ww * f" using hf wf' by (auto simp: hh_def ww_def)
  have hh0: "0 < hh" and ww0: "0 < ww" using h0 w0 hE wE by (cases hh; simp)+
  define x1 where "x1 = x\<lparr>shape := [n, c, hh, f, ww, f]\<rparr>"
  have wf1: "wf_tensor x1" using wf sh by (simp add: x1_def wf_tensor_def hE wE)
  have v1: "view x [None, Some c, Some hh, Some f, Some ww, Some f] = Inr x1"
    using view_infer[of "[c, hh, f, ww, f]" x n] c0 hh0 ww0 f0 sh
    by (simp add: numel_def x1_def hE wE)
  have perm_p: "is_perm ?p 6" and perm_q: "is_perm ?q 6"
    by (simp_all add: is_perm_def upt_rec[of _ 6] upt_rec[of _ "numeral _"])
  have l1: "length (shape x1) = 6" by (simp add: x1_def)
  define x2 where
    "x2 = tabulate (map ((!) (shape x1)) ?p) (\<lambda>ix. get_at x1 (map ((!) ix) (inv_perm ?p)))"
  have p1: "permute x1 ?p = Inr x2" unfolding permute_def x2_def using perm_p l1 by simp
  have sh2: "shape x2 = [n, c, f, f, hh, ww]" by (simp add: x2_def x1_def)
  have n2: "numel x2 = n * prod_list [c * f * f, hh, ww]" using sh2 by (simp add: numel_def)
  have v2: "view x2 [None, Some (c * f * f), Some hh, Some ww]
              = Inr (x2\<lparr>shape := [n, c * f * f, hh, ww]\<rparr>)"
    using view_infer[of "[c * f * f, hh, ww]" x2 n] c0 hh0 ww0 f0 n2 by simp
  have sq: "squeeze x f = Inr (x2\<lparr>shape := [n, c * f * f, hh, ww]\<rparr>)"
    using f2 sh hf wf' v1 p1 v2 by (simp add: squeeze_def bnd_def hh_def ww_def Let_def)
  have pq: "bnd (permute x1 ?p) (\<lambda>u. permute u ?q) = Inr x1"
  proof (rule permute_permute[OF wf1])
    show "is_perm ?p (length (shape x1))" "is_perm ?q (length (shape x1))"
      using perm_p perm_q l1 by simp_all
    fix k assume "k < length (shape x1)"
    then have "k < 6" using l1 by simp
    then have "k = 0 \<or> k = 1 \<or> k = 2 \<or> k = 3 \<or> k = 4 \<or> k = 5" by arith
    then show "?p ! (?q ! k) = k" by auto
  qed
  then have p2: "permute x2 ?q = Inr x1" using p1 by (simp add: bnd_def)
  have n1: "numel x1 = n * prod_list [c, hh * f, ww * f]" by (simp add: x1_def numel_def)
  have x10: "x1\<lparr>shape := [n, c, hh * f, ww * f]\<rparr> = x" using sh hE wE by (simp add: x1_def)
  have v4: "view x1 [None, Some c, Some (hh * f), Some (ww * f)] = Inr x"
    using view_infer[of "[c, hh * f, ww * f]" x1 n] c0 hh0 ww0 f0 n1 x10 by simp
  show ?thesis using sh2 sq p2 v4 by (auto simp: bnd_def hh_def ww_def)
qed

lemma squeeze_unsqueeze:
  assumes sh: "shape x = [n, c, h, w]" and wf: "wf_tensor x" and f2: "2 \<le> f"
    and hf: "h mod f = 0" and wf': "w mod f = 0" and h0: "0 < h" and w0: "0 < w"
    and c4: "4 \<le> c * f * f" and cm: "(c * f * f) mod 4 = 0"
  shows "bnd (squeeze x f) (\<lambda>y. unsqueeze y f) = Inr x"
proof -
  have f0: "0 < f" using f2 by simp
  have c0: "0 < c" using c4 by (cases c) auto
  obtain x2 where sh2: "shape x2 = [n, c, f, f, h div f, w div f]"
    and sq: "squeeze x f = Inr (x2\<lparr>shape := [n, c * f * f, h div f, w div f]\<rparr>)"
    and rt: "bnd (permute x2 [0, 1, 4, 2, 5, 3])
                 (\<lambda>x1. view x1 [None, Some c, Some (h div f * f), Some (w div f * f)]) = Inr x"
    using squeeze_steps[OF sh wf f2 hf wf' h0 w0 c0] by blast
  let ?x3 = "x2\<lparr>shape := [n, c * f * f, h div f, w div f]\<rparr>"
  have hh0: "0 < h div f" and ww0: "0 < w div f" using h0 w0 hf wf' f0 by auto
  have cdiv: "c * f * f div f ^ 2 = c" using f0 by (simp add: power2_eq_square)
  have n3: "numel ?x3 = n * prod_list [c, f, f, h div f, w div f]" by (simp add: numel_def)
  have x32: "?x3\<lparr>shape := [n, c, f, f, h div f, w div f]\<rparr> = x2" using sh2 by simp
  have v3: "view ?x3 [None, Some c, Some f, Some f, Some (h div f), Some (w div f)] = Inr x2"
    using view_infer[of "[c, f, f, h div f, w div f]" ?x3 n] c0 hh0 ww0 f0 n3 x32 by simp
  have "unsqueeze ?x3 f = Inr x"
    using f2 c4 cm v3 rt cdiv by (simp add: unsqueeze_def bnd_def Let_def)
  then show ?thesis using sq by (simp add: bnd_def)
qed

text \<open>
  Claim C7, as amended. For a rank-4 tensor \<open>x\<close> of shape \<open>(N, C, H, W)\<close> and a factor
  \<open>f \<ge> 1\<close> that divides \<open>H\<close> and \<open>W\<close>, \<^verbatim>\<open>unsqueeze(squeeze(x, f), f)\<close> returns \<open>x\<close> exactly,
  provided \<open>f = 1\<close>, or \<open>H\<close> and \<open>W\<close> are positive and the squeezed channel count
  \<open>C * f * f\<close> is at least 4 and a multiple of 4 (the assertion of \<^verbatim>\<open>unsqueeze\<close>); with
  factor 1 both functions are the identity on every tensor.
\<close>
theorem squeeze_unsqueeze_round_trip:
  assumes "shape x = [n, c, h, w]" and "wf_tensor x" and "1 \<le> f"
    and "h mod f = 0" and "w mod f = 0"
    and "f = 1 \<or> (0 < h \<and> 0 < w \<and> 4 \<le> c * f * f \<and> (c * f * f) mod 4 = 0)"
  shows "bnd (squeeze x f) (\<lambda>y. unsqueeze y f) = Inr x
         \<and> squeeze x 1 = Inr x \<and> unsqueeze x 1 = Inr x"
proof -
  have one: "squeeze x 1 = Inr x \<and> unsqueeze x 1 = Inr x"
    by (simp add: squeeze_def unsqueeze_def)
  show ?thesis
  proof (cases "f = 1")
    case True
    then show ?thesis using one by (simp add: bnd_def)
  next
    case False
    then have "2 \<le> f" using assms(3) by simp
    then show ?thesis using squeeze_unsqueeze[of x n c h w f] assms False one by simp
  qed
qed

text \<open>The theorem at a \<open>1 \<times> 1 \<times> 2 \<times> 2\<close> tensor and factor 2.\<close>

theorem squeeze_unsqueeze_round_trip_witness:
  "bnd (squeeze \<lparr>shape = [1, 1, 2, 2], data = [5, 6, 7, 8 :: int]\<rparr> 2) (\<lambda>y. unsqueeze y 2)
     = Inr \<lparr>shape = [1, 1, 2, 2], data = [5, 6, 7, 8]\<rparr>"
  using squeeze_unsqueeze_round_trip
          [of "\<lparr>shape = [1, 1, 2, 2], data = [5, 6, 7, 8 :: int]\<rparr>" 1 1 2 2 2]
  by (simp add: wf_tensor_def)

text \<open>
  Claim C7 as stated fails: factor 3 divides the height and width of a
  \<open>1 \<times> 1 \<times> 3 \<times> 3\<close> tensor, \<^verbatim>\<open>squeeze\<close> returns 9 channels, and \<^verbatim>\<open>unsqueeze\<close> then fails its
  assertion \<^verbatim>\<open>nc >= 4 and nc % 4 == 0\<close>. A tensor without pixels is refused by \<^verbatim>\<open>view\<close>.
\<close>

theorem squeeze_unsqueeze_counterexample:
  "bnd (squeeze \<lparr>shape = [1, 1, 3, 3], data = [1, 2, 3, 4, 5, 6, 7, 8, 9 :: int]\<rparr> 3)
       (\<lambda>y. unsqueeze y 3) = Inl AssertionError
   \<and> squeeze \<lparr>shape = [1, 1, 0, 2], data = [] :: int list\<rparr> 2 = Inl RuntimeError"
proof -
  let ?x = "\<lparr>shape = [1, 1, 3, 3], data = [1, 2, 3, 4, 5, 6, 7, 8, 9 :: int]\<rparr>"
  obtain x2 where "squeeze ?x 3 = Inr (x2\<lparr>shape := [1, 1 * 3 * 3, 3 div 3, 3 div 3]\<rparr>)"
    using squeeze_steps[of ?x 1 1 3 3 3] by (auto simp: wf_tensor_def)
  then have 1: "bnd (squeeze ?x 3) (\<lambda>y. unsqueeze y 3) = Inl AssertionError"
    by (simp add: bnd_def unsqueeze_def)
  have 2: "squeeze \<lparr>shape = [1, 1, 0, 2], data = [] :: int list\<rparr> 2 = Inl RuntimeError"
    by (simp add: squeeze_def view_def known_sizes_def bnd_def numel_def)
  show ?thesis using 1 2 by simp
qed

lemma invert_indices_append:
  "invert_indices ind iv (xs @ ys) = bnd (invert_indices ind iv xs) (\<lambda>iv'. invert_indices ind iv' ys)"
  by (induction xs arbitrary: iv) (auto simp: bnd_def)

lemma invert_indices_upt:
  assumes d: "distinct ind" and b: "\<And>i. i < length ind \<Longrightarrow> ind ! i < length iv0"
    and k: "k \<le> length ind"
  shows "\<exists>iv. invert_indices ind iv0 [0..<k] = Inr iv \<and> length iv = length iv0
           \<and> (\<forall>i<k. iv ! (ind ! i) = i)"
  using k
proof (induction k)
  case 0
  then show ?case by simp
next
  case (Suc k)
  then obtain iv where iv: "invert_indices ind iv0 [0..<k] = Inr iv"
    "length iv = length iv0" "\<forall>i<k. iv ! (ind ! i) = i" by auto
  have kl: "k < length ind" using Suc.prems by simp
  have step: "invert_indices ind iv0 [0..<Suc k] = Inr (iv[ind ! k := k])"
    using iv(1,2) kl b[OF kl] by (simp add: invert_indices_append bnd_def)
  have "\<forall>i<Suc k. (iv[ind ! k := k]) ! (ind ! i) = i"
  proof (intro allI impI)
    fix i assume i: "i < Suc k"
    show "(iv[ind ! k := k]) ! (ind ! i) = i"
    proof (cases "i = k")
      case True
      then show ?thesis using b[OF kl] iv(2) by simp
    next
      case False
      then have ik: "i < k" using i by simp
      then have "ind ! i \<noteq> ind ! k" using d kl by (simp add: nth_eq_iff_index_eq)
      then show ?thesis using iv(3) ik by simp
    qed
  qed
  then show ?case using step iv(2) by simp
qed

lemma index_channels_compose:
  assumes sh: "shape x = [n, c, h, w]" and wf: "wf_tensor x"
    and la: "length a = c" and lb: "length b = c"
    and ba: "\<And>k. k < c \<Longrightarrow> a ! k < c" and bb: "\<And>k. k < c \<Longrightarrow> b ! k < c"
    and ab: "\<And>k. k < c \<Longrightarrow> a ! (b ! k) = k"
  shows "\<exists>y. index_channels x a = Inr y \<and> shape y = [n, c, h, w] \<and> index_channels y b = Inr x"
proof -
  define y where "y = tabulate [n, c, h, w] (\<lambda>ix. get_at x (ix[1 := a ! (ix ! 1)]))"
  have "\<forall>k\<in>set a. k < c" using ba la by (metis in_set_conv_nth)
  then have na: "\<not> list_ex (\<lambda>k. c \<le> k) a" by (auto simp: list_ex_iff)
  have "\<forall>k\<in>set b. k < c" using bb lb by (metis in_set_conv_nth)
  then have nb: "\<not> list_ex (\<lambda>k. c \<le> k) b" by (auto simp: list_ex_iff)
  have 1: "index_channels x a = Inr y" using sh na la by (simp add: index_channels_def y_def)
  have shy: "shape y = [n, c, h, w]" by (simp add: y_def)
  have body: "get_at y (ix[1 := b ! (ix ! 1)]) = get_at x ix" if r: "list_all2 (<) ix [n, c, h, w]" for ix
  proof -
    obtain i0 i1 i2 i3 where ix: "ix = [i0, i1, i2, i3]" and lt: "i0 < n" "i1 < c" "i2 < h" "i3 < w"
      using r by (auto simp: list_all2_Cons2)
    have r': "list_all2 (<) (ix[1 := b ! (ix ! 1)]) [n, c, h, w]" using ix lt bb by simp
    show ?thesis unfolding y_def get_at_tabulate[OF r'] using ix lt ab by simp
  qed
  have "tabulate [n, c, h, w] (\<lambda>ix. get_at y (ix[1 := b ! (ix ! 1)])) = tabulate [n, c, h, w] (get_at x)"
    by (rule tabulate_cong) (rule body)
  then have 2: "index_channels y b = Inr x"
    using shy nb lb tabulate_get_at[OF wf] sh by (simp add: index_channels_def)
  show ?thesis using 1 2 shy by simp
qed

lemma Permutation2d_init_ok:
  assumes rng: "shuffle \<longrightarrow> mset (shuffled (rev [0..<C])) = mset (rev [0..<C])"
  shows "\<exists>L. Permutation2d_init C shuffle shuffled = Inr L
           \<and> length (pm_indices L) = C \<and> length (pm_indices_inverse L) = C
           \<and> (\<forall>i<C. pm_indices L ! i < C \<and> pm_indices_inverse L ! i < C
                 \<and> pm_indices L ! (pm_indices_inverse L ! i) = i
                 \<and> pm_indices_inverse L ! (pm_indices L ! i) = i)"
proof -
  define ind where "ind = (if shuffle then shuffled (rev [0..<C]) else rev [0..<C])"
  have ms: "mset ind = mset [0..<C]" using rng by (auto simp: ind_def)
  have d: "distinct ind" using ms mset_eq_imp_distinct_iff[OF ms] by simp
  have st: "set ind = {0..<C}" using mset_eq_setD[OF ms] by simp
  have len: "length ind = C" using mset_eq_length[OF ms] by simp
  have lt: "\<And>i. i < C \<Longrightarrow> ind ! i < C" using st len nth_mem[of _ ind] by auto
  obtain iv where iv: "invert_indices ind (replicate C 0) [0..<C] = Inr iv" "length iv = C"
    "\<forall>i<C. iv ! (ind ! i) = i"
    using invert_indices_upt[of ind "replicate C 0" C] d lt len by auto
  have surj: "\<exists>i<C. ind ! i = m" if "m < C" for m
    using that st len by (metis atLeastLessThan_iff in_set_conv_nth zero_le)
  have r: "iv ! m < C \<and> ind ! (iv ! m) = m" if m: "m < C" for m
  proof -
    obtain i where "i < C" "ind ! i = m" using surj[OF m] by auto
    then show ?thesis using iv(3) by auto
  qed
  have "Permutation2d_init C shuffle shuffled =
      Inr \<lparr>pm_num_channels = C, pm_indices = ind, pm_indices_inverse = iv\<rparr>"
    using iv(1) by (simp add: Permutation2d_init_def Let_def ind_def bnd_def)
  then show ?thesis using len iv(2,3) lt r by simp
qed

text \<open>
  Claim C9, as amended. For every channel count \<open>C\<close>, with the default reversed indices or
  with shuffled ones (the shuffle returning a permutation of its argument), the constructor
  returns a layer whose tables satisfy \<^verbatim>\<open>indices[indices_inverse[i]] == i\<close> for every
  channel \<open>i\<close>, and on every rank-4 input \<open>x\<close> that has exactly \<open>C\<close> channels \<^verbatim>\<open>forward\<close> with
  \<^verbatim>\<open>reverse=True\<close> followed by \<^verbatim>\<open>reverse=False\<close>, and the other way round, returns \<open>x\<close>
  exactly.
\<close>

theorem Permutation2d_round_trip:
  assumes rng: "shuffle \<longrightarrow> mset (shuffled (rev [0..<C])) = mset (rev [0..<C])"
    and sh: "shape x = [n, C, h, w]" and wf: "wf_tensor x"
  shows "\<exists>L. Permutation2d_init C shuffle shuffled = Inr L
           \<and> (\<forall>i<C. pm_indices L ! (pm_indices_inverse L ! i) = i)
           \<and> bnd (Permutation2d_forward L x True) (\<lambda>y. Permutation2d_forward L y False) = Inr x
           \<and> bnd (Permutation2d_forward L x False) (\<lambda>y. Permutation2d_forward L y True) = Inr x"
proof -
  obtain L where L: "Permutation2d_init C shuffle shuffled = Inr L"
    "length (pm_indices L) = C" "length (pm_indices_inverse L) = C"
    and P: "\<And>i. i < C \<Longrightarrow> pm_indices L ! i < C \<and> pm_indices_inverse L ! i < C
                 \<and> pm_indices L ! (pm_indices_inverse L ! i) = i
                 \<and> pm_indices_inverse L ! (pm_indices L ! i) = i"
    using Permutation2d_init_ok[of shuffle shuffled C] rng by blast
  obtain y where y: "index_channels x (pm_indices_inverse L) = Inr y" "shape y = [n, C, h, w]"
    "index_channels y (pm_indices L) = Inr x"
    using index_channels_compose[OF sh wf L(3) L(2)] P by blast
  obtain z where z: "index_channels x (pm_indices L) = Inr z" "shape z = [n, C, h, w]"
    "index_channels z (pm_indices_inverse L) = Inr x"
    using index_channels_compose[OF sh wf L(2) L(3)] P by blast
  have 1: "bnd (Permutation2d_forward L x True) (\<lambda>y. Permutation2d_forward L y False) = Inr x"
    using y sh by (simp add: Permutation2d_forward_def bnd_def)
  have 2: "bnd (Permutation2d_forward L x False) (\<lambda>y. Permutation2d_forward L y True) = Inr x"
    using z sh by (simp add: Permutation2d_forward_def bnd_def)
  show ?thesis using L(1) P 1 2 by blast
qed

text \<open>The theorem at three channels, shuffled by a rotation.\<close>

theorem Permutation2d_round_trip_witness:
  "\<exists>L. Permutation2d_init 3 True rotate1 = Inr L
     \<and> pm_indices L = [1, 0, 2]
     \<and> pm_indices L ! (pm_indices_inverse L ! 0) = 0
     \<and> pm_indices L ! (pm_indices_inverse L ! 1) = 1
     \<and> pm_indices L ! (pm_indices_inverse L ! 2) = 2
     \<and> bnd (Permutation2d_forward L \<lparr>shape = [1, 3, 1, 2], data = [10, 11, 20, 21, 30, 31 :: int]\<rparr> True)
           (\<lambda>y. Permutation2d_forward L y False)
         = Inr \<lparr>shape = [1, 3, 1, 2], data = [10, 11, 20, 21, 30, 31]\<rparr>
     \<and> bnd (Permutation2d_forward L \<lparr>shape = [1, 3, 1, 2], data = [10, 11, 20, 21, 30, 31 :: int]\<rparr> False)
           (\<lambda>y. Permutation2d_forward L y True)
         = Inr \<lparr>shape = [1, 3, 1, 2], data = [10, 11, 20, 21, 30, 31]\<rparr>"
proof -
  have u: "[0..<3] = [0, 1, 2]" by (simp add: upt_rec)
  have h1: "True \<longrightarrow> mset (rotate1 (rev [0..<3])) = mset (rev [0..<3])"
    by (simp add: u add_mset_commute del: mset_upt)
  have h2: "shape \<lparr>shape = [1, 3, 1, 2], data = [10, 11, 20, 21, 30, 31 :: int]\<rparr> = [1, 3, 1, 2]" by simp
  have h3: "wf_tensor \<lparr>shape = [1, 3, 1, 2], data = [10, 11, 20, 21, 30, 31 :: int]\<rparr>"
    by (simp add: wf_tensor_def)
  obtain L where L: "Permutation2d_init 3 True rotate1 = Inr L"
     "\<forall>i<3. pm_indices L ! (pm_indices_inverse L ! i) = i"
     "bnd (Permutation2d_forward L \<lparr>shape = [1, 3, 1, 2], data = [10, 11, 20, 21, 30, 31 :: int]\<rparr> True)
           (\<lambda>y. Permutation2d_forward L y False)
         = Inr \<lparr>shape = [1, 3, 1, 2], data = [10, 11, 20, 21, 30, 31]\<rparr>"
     "bnd (Permutation2d_forward L \<lparr>shape = [1, 3, 1, 2], data = [10, 11, 20, 21, 30, 31 :: int]\<rparr> False)
           (\<lambda>y. Permutation2d_forward L y True)
         = Inr \<lparr>shape = [1, 3, 1, 2], data = [10, 11, 20, 21, 30, 31]\<rparr>"
    using Permutation2d_round_trip[of True rotate1 3, OF h1 h2 h3] by blast
  have "pm_indices L = [1, 0, 2]" using L(1) by (auto simp: Permutation2d_init_def Let_def u bnd_def)
  then show ?thesis using L by auto
qed

text \<open>
  Claim C9 as stated fails: \<^verbatim>\<open>forward\<close> asserts the rank of its input only. A layer over
  three channels maps a rank-4 input of four channels to its first three channels, so the
  round trip does not return the input; on an input of two channels the index raises
  IndexError.
\<close>

theorem Permutation2d_round_trip_counterexample:
  "bnd (Permutation2d_init 3 False (\<lambda>xs. xs)) (\<lambda>L.
     bnd (Permutation2d_forward L \<lparr>shape = [1, 4, 1, 1], data = [10, 20, 30, 40 :: int]\<rparr> True)
       (\<lambda>y. Permutation2d_forward L y False))
     = Inr \<lparr>shape = [1, 3, 1, 1], data = [10, 20, 30]\<rparr>
   \<and> bnd (Permutation2d_init 3 False (\<lambda>xs. xs)) (\<lambda>L.
     Permutation2d_forward L \<lparr>shape = [1, 2, 1, 1], data = [10, 20 :: int]\<rparr> True)
     = Inl IndexError"
  by code_simp

lemma bcast_index_same: "list_all2 (<) ix sh \<Longrightarrow> bcast_index sh ix = ix"
proof -
  assume r: "list_all2 (<) ix sh"
  then have l: "length ix = length sh" by (rule list_all2_lengthD)
  have "map (\<lambda>(d, i). if d = 1 then 0 else i) (zip sh ix) = ix" using r
    by (induction ix sh rule: list_all2_induct) auto
  then show ?thesis using l by (simp add: bcast_index_def)
qed

lemma broadcast_shapes_channel [simp]:
  "broadcast_shapes [n, c, h, w] [Suc 0, c, Suc 0, Suc 0] = Some [n, c, h, w]"
  by (simp add: broadcast_shapes_def)

lemma broadcast_shapes_scalar [simp]: "broadcast_shapes sh [] = Some sh"
  by (cases "rev sh") (auto simp: broadcast_shapes_def rev_swap)

lemma index4:
  assumes "list_all2 (<) ix [n, c, h, w]"
  obtains i0 i1 i2 i3 where "ix = [i0, i1, i2, i3]" "i0 < n" "i1 < c" "i2 < h" "i3 < w"
  using assms by (auto simp: list_all2_Cons2)

lemma bin_op_channel:
  assumes "shape x = [n, c, h, w]" "shape b = [1, c, 1, 1]"
  shows "bin_op f x b = Inr (tabulate [n, c, h, w] (\<lambda>ix. f (get_at x ix) (data b ! (ix ! 1))))"
proof -
  have "f (get_at x (bcast_index [n, c, h, w] ix)) (get_at b (bcast_index [1, c, 1, 1] ix))
        = f (get_at x ix) (data b ! (ix ! 1))" if r: "list_all2 (<) ix [n, c, h, w]" for ix
  proof -
    obtain i0 i1 i2 i3 where ix: "ix = [i0, i1, i2, i3]" "i1 < c" using r by (rule index4)
    have "get_at b (bcast_index [1, c, 1, 1] ix) = data b ! i1"
      using ix assms(2) by (auto simp: get_at_def bcast_index_def)
    then show ?thesis using bcast_index_same[OF r] ix by simp
  qed
  then have "tabulate [n, c, h, w] (\<lambda>ix. f (get_at x (bcast_index [n, c, h, w] ix)) (get_at b (bcast_index [1, c, 1, 1] ix)))
      = tabulate [n, c, h, w] (\<lambda>ix. f (get_at x ix) (data b ! (ix ! 1)))"
    by (intro tabulate_cong)
  then show ?thesis using assms by (simp add: bin_op_def)
qed

lemma bin_op_scalar:
  assumes "shape d = []"
  shows "bin_op f t d = Inr (tabulate (shape t) (\<lambda>ix. f (get_at t ix) (data d ! 0)))"
proof -
  have e: "get_at d (bcast_index [] ix) = data d ! 0" for ix
    by (simp add: get_at_def bcast_index_def assms)
  have "tabulate (shape t) (\<lambda>ix. f (get_at t (bcast_index (shape t) ix)) (get_at d (bcast_index [] ix)))
      = tabulate (shape t) (\<lambda>ix. f (get_at t ix) (data d ! 0))"
    by (intro tabulate_cong) (simp add: bcast_index_same e)
  then show ?thesis using assms by (simp add: bin_op_def)
qed

lemma inplace_op_channel:
  assumes "shape x = [n, c, h, w]" "shape b = [1, c, 1, 1]"
  shows "inplace_op f x b = Inr (tabulate [n, c, h, w] (\<lambda>ix. f (get_at x ix) (data b ! (ix ! 1))))"
  using assms by (simp add: inplace_op_def bin_op_channel[OF assms] bnd_def)

lemma inplace_op_scalar:
  assumes "shape d = []"
  shows "inplace_op f t d = Inr (tabulate (shape t) (\<lambda>ix. f (get_at t ix) (data d ! 0)))"
  by (simp add: inplace_op_def bin_op_scalar[OF assms] bnd_def)

lemma shape_tmap [simp]: "shape (tmap f t) = shape t"
  by (simp add: tmap_def)

lemma data_tmap [simp]: "data (tmap f t) = map f (data t)"
  by (simp add: tmap_def)

lemma wf_tmap [simp]: "wf_tensor (tmap f t) = wf_tensor t"
  by (simp add: wf_tensor_def)

lemma keep_shape_nhw [simp]: "keep_shape [0, 2, 3] [n, c, h, w] = [1, c, 1, 1]"
  by (simp add: keep_shape_def upt_rec[of _ 4] upt_rec[of _ "numeral _"])

lemma reduced_count_nhw [simp]: "reduced_count [0, 2, 3] [n, c, h, w] = n * h * w"
  by (simp add: reduced_count_def upt_rec[of _ 4] upt_rec[of _ "numeral _"])

lemma reduce_mean_channel:
  assumes "shape x = [n, c, h, w]" "0 < n * h * w"
  shows "\<exists>m. reduce_mean x (Some [0, 2, 3]) = Inr m \<and> shape m = [1, c, 1, 1] \<and> wf_tensor m"
  using assms by (simp add: reduce_mean_def sum_keepdim_def Let_def wf_tensor_def tabulate_def)

lemma reduce_mean_all:
  assumes "0 < numel x"
  shows "\<exists>m. reduce_mean x None = Inr m \<and> shape m = [] \<and> wf_tensor m"
  using assms by (simp add: reduce_mean_def torch_sum_def wf_tensor_def)

lemma copy_into_channel:
  assumes "shape dst = [1, c, 1, 1]" "shape src = [1, c, 1, 1]"
  shows "\<exists>b. copy_into dst src = Inr b \<and> shape b = [1, c, 1, 1] \<and> wf_tensor b"
  using inplace_op_channel[OF assms, of "\<lambda>d s. s"] by (simp add: copy_into_def)

lemma copy_into_scalar:
  assumes "shape src = []"
  shows "\<exists>b. copy_into dst src = Inr b \<and> shape b = shape dst \<and> wf_tensor b"
  using inplace_op_scalar[OF assms, of "\<lambda>d s. s" dst] by (simp add: copy_into_def)

lemma initialize_bias_ok:
  assumes ok: "an_ok s" and tr: "an_training s" and sh: "shape x = [n, an_num_channels s, h, w]"
    and ne: "0 < n * h * w"
  shows "\<exists>b. initialize_bias s x = Inr (s\<lparr>an_bias := b, an_bias_inited := True\<rparr>)
           \<and> shape b = [1, an_num_channels s, 1, 1] \<and> wf_tensor b"
proof -
  obtain m where m: "reduce_mean x (Some [0, 2, 3]) = Inr m" "shape m = [1, an_num_channels s, 1, 1]"
    using reduce_mean_channel[OF sh ne] by blast
  define xm where "xm = tmap (\<lambda>v. - 1 * v) m"
  have sb: "shape (an_bias s) = [1, an_num_channels s, 1, 1]" using ok by (simp add: an_ok_def)
  have "shape xm = [1, an_num_channels s, 1, 1]" using m(2) by (simp add: xm_def)
  then obtain b where b: "copy_into (an_bias s) xm = Inr b"
    "shape b = [1, an_num_channels s, 1, 1]" "wf_tensor b"
    using copy_into_channel[OF sb] by blast
  have "initialize_bias s x = Inr (s\<lparr>an_bias := b, an_bias_inited := True\<rparr>)"
    unfolding initialize_bias_def m(1) Let_def bnd_def sum.case xm_def[symmetric] b(1)
    using tr by simp
  then show ?thesis using b by blast
qed

lemma initialize_logs_ok:
  assumes ok: "an_ok s" and tr: "an_training s" and sh: "shape x = [n, an_num_channels s, h, w]"
    and ne: "0 < n * an_num_channels s * h * w"
    and sc: "0 < an_scale s" and lf: "an_logscale_factor s \<noteq> 0"
  shows "\<exists>l. initialize_logs s x = Inr (s\<lparr>an_logs := l, an_logs_inited := True\<rparr>)
           \<and> shape l = [1, an_num_channels s, 1, 1] \<and> wf_tensor l"
proof -
  let ?c = "an_num_channels s"
  define sq where "sq = tmap (\<lambda>v. v ^ 2) x"
  have sl: "shape (an_logs s) = [1, ?c, 1, 1]" using ok by (simp add: an_ok_def)
  have sh2: "shape sq = [n, ?c, h, w]" using sh by (simp add: sq_def)
  have ne': "0 < n * h * w" using ne by simp
  have "\<exists>m. (if an_batch_variance s then reduce_mean sq None
              else reduce_mean sq (Some [0, 2, 3])) = Inr m
           \<and> (shape m = [] \<or> shape m = [1, ?c, 1, 1])"
  proof (cases "an_batch_variance s")
    case True
    have "0 < numel sq" using sh2 ne by (simp add: numel_def)
    then show ?thesis using True reduce_mean_all[of sq] by auto
  next
    case False
    then show ?thesis using reduce_mean_channel[OF sh2 ne'] by auto
  qed
  then obtain m where m: "(if an_batch_variance s then reduce_mean sq None
              else reduce_mean sq (Some [0, 2, 3])) = Inr m"
    and shm: "shape m = [] \<or> shape m = [1, ?c, 1, 1]" by blast
  define lg where "lg = tmap (\<lambda>v. ln (an_scale s / (sqrt v + 1 / 10 ^ 6))
                                 / an_logscale_factor s) m"
  have "shape lg = [] \<or> shape lg = [1, ?c, 1, 1]" using shm by (simp add: lg_def)
  then obtain l where l: "copy_into (an_logs s) lg = Inr l" "shape l = [1, ?c, 1, 1]" "wf_tensor l"
    using copy_into_channel[OF sl, of lg] copy_into_scalar[of lg "an_logs s"] sl by auto
  have g: "\<not> (data m \<noteq> [] \<and> (an_scale s \<le> 0 \<or> an_logscale_factor s = 0))"
    using sc lf by simp
  have "initialize_logs s x = Inr (s\<lparr>an_logs := l, an_logs_inited := True\<rparr>)"
    unfolding initialize_logs_def sq_def[symmetric] m Let_def bnd_def sum.case lg_def[symmetric] l(1)
    using tr g by simp
  then show ?thesis using l by blast
qed

lemma actnorm_center_inited:
  assumes "an_bias_inited s \<or> \<not> an_training s"
    and "shape x = [n, c, h, w]" and "shape (an_bias s) = [1, c, 1, 1]"
  shows "actnorm_center s x reverse =
     Inr (s, tabulate [n, c, h, w]
               (\<lambda>ix. if reverse then get_at x ix - data (an_bias s) ! (ix ! 1)
                      else get_at x ix + data (an_bias s) ! (ix ! 1)))"
proof -
  have i: "(if \<not> an_bias_inited s then initialize_bias s x else Inr s) = Inr s"
    using assms(1) by (auto simp: initialize_bias_def)
  show ?thesis unfolding actnorm_center_def i
    by (simp add: bnd_def bin_op_channel[OF assms(2,3)])
qed

lemma actnorm_center_init:
  assumes "\<not> an_bias_inited s" and "initialize_bias s x = Inr s1" and "an_bias_inited s1"
  shows "actnorm_center s x reverse = actnorm_center s1 x reverse"
  using assms by (simp add: actnorm_center_def bnd_def)

lemma actnorm_scale_inited:
  assumes "an_logs_inited s \<or> \<not> an_training s"
    and sh: "shape x = [n, c, h, w]" and sl: "shape (an_logs s) = [1, c, 1, 1]"
    and wl: "wf_tensor (an_logs s)"
  shows "actnorm_scale s x logdet reverse =
     Inr (s, tabulate [n, c, h, w]
               (\<lambda>ix. if reverse then get_at x ix * exp (- (data (an_logs s) ! (ix ! 1) * an_logscale_factor s))
                      else get_at x ix * exp (data (an_logs s) ! (ix ! 1) * an_logscale_factor s)),
          map_option (\<lambda>t. tabulate (shape t)
               (\<lambda>ix. get_at t ix + (if reverse then dlog s (h * w) * - 1 else dlog s (h * w)))) logdet)"
proof -
  let ?F = "an_logscale_factor s"
  let ?logs = "tmap (\<lambda>v. v * ?F) (an_logs s)"
  have i: "(if \<not> an_logs_inited s then initialize_logs s x else Inr s) = Inr s"
    using assms(1) by (auto simp: initialize_logs_def)
  have len: "length (data (an_logs s)) = c" using sl wl by (simp add: wf_tensor_def)
  have t1: "tabulate [n, c, h, w] (\<lambda>ix. get_at x ix * data (tmap exp ?logs) ! (ix ! 1))
        = tabulate [n, c, h, w] (\<lambda>ix. get_at x ix * exp (data (an_logs s) ! (ix ! 1) * ?F))"
  proof (rule tabulate_cong)
    fix ix assume "list_all2 (<) ix [n, c, h, w]"
    then obtain i0 i1 i2 i3 where "ix = [i0, i1, i2, i3]" "i1 < c" by (rule index4)
    then show "get_at x ix * data (tmap exp ?logs) ! (ix ! 1)
        = get_at x ix * exp (data (an_logs s) ! (ix ! 1) * ?F)" using len by simp
  qed
  have t2: "tabulate [n, c, h, w] (\<lambda>ix. get_at x ix * data (tmap exp (tmap uminus ?logs)) ! (ix ! 1))
        = tabulate [n, c, h, w] (\<lambda>ix. get_at x ix * exp (- (data (an_logs s) ! (ix ! 1) * ?F)))"
  proof (rule tabulate_cong)
    fix ix assume "list_all2 (<) ix [n, c, h, w]"
    then obtain i0 i1 i2 i3 where "ix = [i0, i1, i2, i3]" "i1 < c" by (rule index4)
    then show "get_at x ix * data (tmap exp (tmap uminus ?logs)) ! (ix ! 1)
        = get_at x ix * exp (- (data (an_logs s) ! (ix ! 1) * ?F))" using len by simp
  qed
  have b1: "bin_op (*) x (tmap exp ?logs)
      = Inr (tabulate [n, c, h, w] (\<lambda>ix. get_at x ix * exp (data (an_logs s) ! (ix ! 1) * ?F)))"
    using bin_op_channel[OF sh, of "tmap exp ?logs" "(*)"] sl t1 by simp
  have b2: "bin_op (*) x (tmap exp (tmap uminus ?logs))
      = Inr (tabulate [n, c, h, w] (\<lambda>ix. get_at x ix * exp (- (data (an_logs s) ! (ix ! 1) * ?F))))"
    using bin_op_channel[OF sh, of "tmap exp (tmap uminus ?logs)" "(*)"] sl t2 by simp
  have d: "data (tmap (\<lambda>v. v * real (h * w)) (torch_sum ?logs)) ! 0 = dlog s (h * w)"
    by (simp add: torch_sum_def dlog_def)
  show ?thesis
  proof (cases logdet)
    case None
    then show ?thesis unfolding actnorm_scale_def i using b1 b2 by (simp add: bnd_def Let_def)
  next
    case (Some ld)
    have s1: "inplace_op (+) ld (tmap (\<lambda>v. v * real (h * w)) (torch_sum ?logs))
        = Inr (tabulate (shape ld) (\<lambda>ix. get_at ld ix + dlog s (h * w)))"
      using inplace_op_scalar[of "tmap (\<lambda>v. v * real (h * w)) (torch_sum ?logs)" "(+)" ld] d
      by (simp add: torch_sum_def)
    have s2: "inplace_op (+) ld (tmap (\<lambda>v. v * - 1) (tmap (\<lambda>v. v * real (h * w)) (torch_sum ?logs)))
        = Inr (tabulate (shape ld) (\<lambda>ix. get_at ld ix + dlog s (h * w) * - 1))"
      using inplace_op_scalar[of "tmap (\<lambda>v. v * - 1) (tmap (\<lambda>v. v * real (h * w)) (torch_sum ?logs))" "(+)" ld]
      by (simp add: torch_sum_def dlog_def)
    show ?thesis unfolding actnorm_scale_def i using Some b1 b2 s1 s2
      by (simp add: bnd_def Let_def)
  qed
qed

lemma actnorm_scale_init:
  assumes "\<not> an_logs_inited s" and "initialize_logs s x = Inr s1" and "an_logs_inited s1"
  shows "actnorm_scale s x logdet reverse = actnorm_scale s1 x logdet reverse"
  using assms by (simp add: actnorm_scale_def bnd_def)

lemma actnorm_center_any:
  assumes ok: "an_ok s" and sh: "shape x = [n, an_num_channels s, h, w]"
    and ne: "an_training s \<and> \<not> an_bias_inited s \<longrightarrow> 0 < n * h * w"
  shows "\<exists>s1. actnorm_center s x reverse =
            Inr (s1, tabulate [n, an_num_channels s, h, w]
               (\<lambda>ix. if reverse then get_at x ix - data (an_bias s1) ! (ix ! 1)
                      else get_at x ix + data (an_bias s1) ! (ix ! 1)))
          \<and> an_ok s1 \<and> (an_bias_inited s1 \<or> \<not> an_training s1)
          \<and> (s1 = s \<or> (\<exists>b. s1 = s\<lparr>an_bias := b, an_bias_inited := True\<rparr>))"
proof (cases "an_bias_inited s \<or> \<not> an_training s")
  case True
  have "shape (an_bias s) = [1, an_num_channels s, 1, 1]" using ok by (simp add: an_ok_def)
  from actnorm_center_inited[OF True sh this] show ?thesis using ok True by auto
next
  case False
  then have tr: "an_training s" and ni: "\<not> an_bias_inited s" and pos: "0 < n * h * w"
    using ne by auto
  obtain b where b: "initialize_bias s x = Inr (s\<lparr>an_bias := b, an_bias_inited := True\<rparr>)"
    "shape b = [1, an_num_channels s, 1, 1]" "wf_tensor b"
    using initialize_bias_ok[OF ok tr sh pos] by blast
  let ?s1 = "s\<lparr>an_bias := b, an_bias_inited := True\<rparr>"
  have ok1: "an_ok ?s1" using ok b by (simp add: an_ok_def)
  have e: "actnorm_center s x reverse = actnorm_center ?s1 x reverse"
    using actnorm_center_init[OF ni b(1)] by simp
  have "actnorm_center ?s1 x reverse =
     Inr (?s1, tabulate [n, an_num_channels s, h, w]
               (\<lambda>ix. if reverse then get_at x ix - data (an_bias ?s1) ! (ix ! 1)
                      else get_at x ix + data (an_bias ?s1) ! (ix ! 1)))"
    by (rule actnorm_center_inited) (use sh b in simp_all)
  then show ?thesis using e ok1 by (intro exI[of _ ?s1]) auto
qed

lemma actnorm_scale_any:
  assumes ok: "an_ok s" and sh: "shape x = [n, an_num_channels s, h, w]"
    and ne: "an_training s \<and> \<not> an_logs_inited s \<longrightarrow>
               0 < n * an_num_channels s * h * w \<and> 0 < an_scale s \<and> an_logscale_factor s \<noteq> 0"
  shows "\<exists>s1. actnorm_scale s x logdet reverse =
     Inr (s1, tabulate [n, an_num_channels s, h, w]
               (\<lambda>ix. if reverse then get_at x ix * exp (- (data (an_logs s1) ! (ix ! 1) * an_logscale_factor s))
                      else get_at x ix * exp (data (an_logs s1) ! (ix ! 1) * an_logscale_factor s)),
          map_option (\<lambda>t. tabulate (shape t)
               (\<lambda>ix. get_at t ix + (if reverse then dlog s1 (h * w) * - 1 else dlog s1 (h * w)))) logdet)
          \<and> an_ok s1 \<and> (an_logs_inited s1 \<or> \<not> an_training s1)
          \<and> (s1 = s \<or> (\<exists>l. s1 = s\<lparr>an_logs := l, an_logs_inited := True\<rparr>))"
proof (cases "an_logs_inited s \<or> \<not> an_training s")
  case True
  have "shape (an_logs s) = [1, an_num_channels s, 1, 1]" "wf_tensor (an_logs s)"
    using ok by (simp_all add: an_ok_def)
  from actnorm_scale_inited[OF True sh this] show ?thesis using ok True by auto
next
  case False
  then have tr: "an_training s" and ni: "\<not> an_logs_inited s"
    and pos: "0 < n * an_num_channels s * h * w" "0 < an_scale s" "an_logscale_factor s \<noteq> 0"
    using ne by auto
  obtain l where l: "initialize_logs s x = Inr (s\<lparr>an_logs := l, an_logs_inited := True\<rparr>)"
    "shape l = [1, an_num_channels s, 1, 1]" "wf_tensor l"
    using initialize_logs_ok[OF ok tr sh pos] by blast
  let ?s1 = "s\<lparr>an_logs := l, an_logs_inited := True\<rparr>"
  have ok1: "an_ok ?s1" using ok l by (simp add: an_ok_def)
  have e: "actnorm_scale s x logdet reverse = actnorm_scale ?s1 x logdet reverse"
    using actnorm_scale_init[OF ni l(1)] by simp
  have "actnorm_scale ?s1 x logdet reverse =
     Inr (?s1, tabulate [n, an_num_channels s, h, w]
               (\<lambda>ix. if reverse then get_at x ix * exp (- (data (an_logs ?s1) ! (ix ! 1) * an_logscale_factor ?s1))
                      else get_at x ix * exp (data (an_logs ?s1) ! (ix ! 1) * an_logscale_factor ?s1)),
          map_option (\<lambda>t. tabulate (shape t)
               (\<lambda>ix. get_at t ix + (if reverse then dlog ?s1 (h * w) * - 1 else dlog ?s1 (h * w)))) logdet)"
    by (rule actnorm_scale_inited) (use sh l in simp_all)
  then show ?thesis using e ok1 by (intro exI[of _ ?s1]) (auto cong del: if_weak_cong)
qed

lemma tabulate_tabulate:
  "tabulate sh (\<lambda>ix. g ix (get_at (tabulate sh f) ix)) = tabulate sh (\<lambda>ix. g ix (f ix))"
  by (rule tabulate_cong) (simp add: get_at_tabulate)

lemma ActNorm_forward_unfold:
  assumes "shape x = [n, an_num_channels s, h, w]"
  shows "ActNorm_forward s x logdet reverse =
      (if \<not> reverse then
        bnd (actnorm_center s x reverse) (\<lambda>(self, x).
        actnorm_scale self x logdet reverse)
      else
        bnd (actnorm_scale s x logdet reverse) (\<lambda>(self, x, logdet).
        bnd (actnorm_center self x reverse) (\<lambda>(self, x). Inr (self, x, logdet))))"
  using assms by (simp add: ActNorm_forward_def)

lemma ActNorm_forward_fwd:
  assumes ok: "an_ok s" and sh: "shape x = [n, an_num_channels s, h, w]"
    and ne: "an_training s \<and> \<not> (an_bias_inited s \<and> an_logs_inited s) \<longrightarrow>
               0 < n * an_num_channels s * h * w \<and> 0 < an_scale s \<and> an_logscale_factor s \<noteq> 0"
  shows "\<exists>s2. ActNorm_forward s x logdet False =
     Inr (s2, tabulate [n, an_num_channels s, h, w]
               (\<lambda>ix. (get_at x ix + data (an_bias s2) ! (ix ! 1))
                        * exp (data (an_logs s2) ! (ix ! 1) * an_logscale_factor s)),
          map_option (\<lambda>t. tabulate (shape t) (\<lambda>ix. get_at t ix + dlog s2 (h * w))) logdet)
      \<and> an_ok s2 \<and> an_num_channels s2 = an_num_channels s
      \<and> an_logscale_factor s2 = an_logscale_factor s \<and> an_scale s2 = an_scale s
      \<and> (an_bias_inited s2 \<or> \<not> an_training s2) \<and> (an_logs_inited s2 \<or> \<not> an_training s2)"
proof -
  let ?sh = "[n, an_num_channels s, h, w]"
  have ne1: "an_training s \<and> \<not> an_bias_inited s \<longrightarrow> 0 < n * h * w" using ne by auto
  obtain s1 where c: "actnorm_center s x False =
            Inr (s1, tabulate ?sh (\<lambda>ix. get_at x ix + data (an_bias s1) ! (ix ! 1)))"
    and ok1: "an_ok s1" and i1: "an_bias_inited s1 \<or> \<not> an_training s1"
    and r1: "s1 = s \<or> (\<exists>b. s1 = s\<lparr>an_bias := b, an_bias_inited := True\<rparr>)"
    using actnorm_center_any[OF ok sh ne1, of False] by auto
  define xc where "xc = tabulate ?sh (\<lambda>ix. get_at x ix + data (an_bias s1) ! (ix ! 1))"
  have nc1: "an_num_channels s1 = an_num_channels s" "an_logscale_factor s1 = an_logscale_factor s"
    "an_scale s1 = an_scale s" "an_training s1 = an_training s"
    "an_logs_inited s1 = an_logs_inited s"
    using r1 by auto
  have shc: "shape xc = [n, an_num_channels s1, h, w]" by (simp add: xc_def nc1)
  have ne2: "an_training s1 \<and> \<not> an_logs_inited s1 \<longrightarrow>
               0 < n * an_num_channels s1 * h * w \<and> 0 < an_scale s1 \<and> an_logscale_factor s1 \<noteq> 0"
    using ne nc1 by auto
  obtain s2 where sc: "actnorm_scale s1 xc logdet False =
     Inr (s2, tabulate [n, an_num_channels s1, h, w]
               (\<lambda>ix. get_at xc ix * exp (data (an_logs s2) ! (ix ! 1) * an_logscale_factor s1)),
          map_option (\<lambda>t. tabulate (shape t) (\<lambda>ix. get_at t ix + dlog s2 (h * w))) logdet)"
    and ok2: "an_ok s2" and i2: "an_logs_inited s2 \<or> \<not> an_training s2"
    and r2: "s2 = s1 \<or> (\<exists>l. s2 = s1\<lparr>an_logs := l, an_logs_inited := True\<rparr>)"
    using actnorm_scale_any[OF ok1 shc ne2, of logdet False] by auto
  have nc2: "an_num_channels s2 = an_num_channels s" "an_logscale_factor s2 = an_logscale_factor s"
    "an_scale s2 = an_scale s" "an_bias s2 = an_bias s1" "an_bias_inited s2 = an_bias_inited s1"
    "an_training s2 = an_training s1"
    using r2 nc1 by auto
  have y: "tabulate ?sh (\<lambda>ix. get_at xc ix * exp (data (an_logs s2) ! (ix ! 1) * an_logscale_factor s))
      = tabulate ?sh (\<lambda>ix. (get_at x ix + data (an_bias s2) ! (ix ! 1))
                        * exp (data (an_logs s2) ! (ix ! 1) * an_logscale_factor s))"
    unfolding xc_def nc2
    by (rule tabulate_tabulate[of ?sh "\<lambda>ix v. v * exp (data (an_logs s2) ! (ix ! 1) * an_logscale_factor s)"])
  have "ActNorm_forward s x logdet False =
     Inr (s2, tabulate ?sh
               (\<lambda>ix. (get_at x ix + data (an_bias s2) ! (ix ! 1))
                        * exp (data (an_logs s2) ! (ix ! 1) * an_logscale_factor s)),
          map_option (\<lambda>t. tabulate (shape t) (\<lambda>ix. get_at t ix + dlog s2 (h * w))) logdet)"
    unfolding ActNorm_forward_unfold[OF sh] using c sc y
    by (simp add: bnd_def xc_def nc1)
  then show ?thesis using ok2 nc2 i1 i2 by auto
qed

lemma bnd_eq_Inr: "bnd m f = Inr r \<longleftrightarrow> (\<exists>v. m = Inr v \<and> f v = Inr r)"
  by (cases m) (simp_all add: bnd_def)

lemma initialize_bias_state:
  assumes "initialize_bias s x = Inr s'"
  shows "(s' = s \<and> \<not> an_training s) \<or> (\<exists>b. s' = s\<lparr>an_bias := b, an_bias_inited := True\<rparr> \<and> an_training s)"
proof (cases "an_training s")
  case True
  then show ?thesis using assms by (auto simp: initialize_bias_def bnd_eq_Inr Let_def)
next
  case False
  then show ?thesis using assms by (simp add: initialize_bias_def)
qed

lemma initialize_logs_state:
  assumes "initialize_logs s x = Inr s'"
  shows "(s' = s \<and> \<not> an_training s) \<or> (\<exists>b. s' = s\<lparr>an_logs := b, an_logs_inited := True\<rparr> \<and> an_training s)"
proof (cases "an_training s")
  case True
  then show ?thesis using assms
    by (auto simp: initialize_logs_def bnd_eq_Inr Let_def split: if_splits)
next
  case False
  then show ?thesis using assms by (simp add: initialize_logs_def)
qed

lemma actnorm_center_state:
  assumes "actnorm_center s x reverse = Inr (s', y)"
  shows "(s' = s \<and> (an_bias_inited s \<or> \<not> an_training s))
       \<or> (\<exists>b. s' = s\<lparr>an_bias := b, an_bias_inited := True\<rparr> \<and> an_training s \<and> \<not> an_bias_inited s)"
proof -
  obtain s1 where s1: "(if \<not> an_bias_inited s then initialize_bias s x else Inr s) = Inr s1"
    and e: "s' = s1"
    using assms unfolding actnorm_center_def bnd_eq_Inr by auto
  show ?thesis
  proof (cases "an_bias_inited s")
    case True
    then show ?thesis using s1 e by simp
  next
    case False
    then show ?thesis using s1 e initialize_bias_state[of s x s1] by auto
  qed
qed

lemma actnorm_scale_state:
  assumes "actnorm_scale s x logdet reverse = Inr (s', y, l)"
  shows "(s' = s \<and> (an_logs_inited s \<or> \<not> an_training s))
       \<or> (\<exists>b. s' = s\<lparr>an_logs := b, an_logs_inited := True\<rparr> \<and> an_training s \<and> \<not> an_logs_inited s)"
proof -
  obtain s1 where s1: "(if \<not> an_logs_inited s then initialize_logs s x else Inr s) = Inr s1"
    and e: "s' = s1"
    using assms unfolding actnorm_scale_def bnd_eq_Inr Let_def
    by (auto split: option.splits if_splits simp: bnd_eq_Inr)
  show ?thesis
  proof (cases "an_logs_inited s")
    case True
    then show ?thesis using s1 e by simp
  next
    case False
    then show ?thesis using s1 e initialize_logs_state[of s x s1] by auto
  qed
qed

lemma ActNorm_forward_state:
  assumes "ActNorm_forward s x logdet reverse = Inr (s', y, l)"
  shows "an_training s' = an_training s
       \<and> (\<not> an_training s \<or> (an_bias_inited s \<and> an_logs_inited s) \<longrightarrow> s' = s)
       \<and> (an_training s \<longrightarrow> an_bias_inited s' \<and> an_logs_inited s')"
proof (cases reverse)
  case False
  then have "bnd (actnorm_center s x False) (\<lambda>(self, x). actnorm_scale self x logdet False)
      = Inr (s', y, l)"
    using assms by (simp add: ActNorm_forward_def split: if_splits)
  then obtain s1 xc where c: "actnorm_center s x False = Inr (s1, xc)"
    and sc: "actnorm_scale s1 xc logdet False = Inr (s', y, l)"
    by (auto simp: bnd_eq_Inr)
  show ?thesis using actnorm_center_state[OF c] actnorm_scale_state[OF sc] by auto
next
  case True
  then have "bnd (actnorm_scale s x logdet True) (\<lambda>(self, x, logdet).
        bnd (actnorm_center self x True) (\<lambda>(self, x). Inr (self, x, logdet))) = Inr (s', y, l)"
    using assms by (simp add: ActNorm_forward_def split: if_splits)
  then obtain s1 xc l1 where sc: "actnorm_scale s x logdet True = Inr (s1, xc, l1)"
    and c: "actnorm_center s1 xc True = Inr (s', y)"
    by (auto simp: bnd_eq_Inr)
  show ?thesis using actnorm_center_state[OF c] actnorm_scale_state[OF sc] by auto
qed

lemma run_append: "run s (xs @ ys) = bnd (run s xs) (\<lambda>s'. run s' ys)"
proof (induction xs arbitrary: s)
  case Nil
  then show ?case by (simp add: bnd_def)
next
  case (Cons c xs)
  show ?case
    by (cases "ActNorm_forward (s\<lparr>an_training := call_training c\<rparr>)
            (call_x c) (call_logdet c) (call_reverse c)")
       (auto simp: bnd_def Cons.IH)
qed

lemma run_Cons_Inr:
  "run s (c # cs) = Inr s' \<longleftrightarrow>
     (\<exists>s1 y l. ActNorm_forward (s\<lparr>an_training := call_training c\<rparr>)
            (call_x c) (call_logdet c) (call_reverse c) = Inr (s1, y, l) \<and> run s1 cs = Inr s')"
  by (auto simp: bnd_eq_Inr)

lemma run_not_training:
  assumes "run s cs = Inr s'" "\<forall>c\<in>set cs. \<not> call_training c"
  shows "an_bias s' = an_bias s \<and> an_logs s' = an_logs s
       \<and> an_bias_inited s' = an_bias_inited s \<and> an_logs_inited s' = an_logs_inited s"
  using assms
proof (induction cs arbitrary: s)
  case Nil
  then show ?case by simp
next
  case (Cons c cs)
  then obtain s1 y l where f: "ActNorm_forward (s\<lparr>an_training := call_training c\<rparr>)
            (call_x c) (call_logdet c) (call_reverse c) = Inr (s1, y, l)" and r: "run s1 cs = Inr s'"
    unfolding run_Cons_Inr by blast
  have "s1 = s\<lparr>an_training := call_training c\<rparr>"
    using ActNorm_forward_state[OF f] Cons.prems(2) by simp
  then show ?case using Cons.IH[OF r] Cons.prems(2) by simp
qed

lemma run_inited:
  assumes "run s cs = Inr s'" "an_bias_inited s" "an_logs_inited s"
  shows "an_bias s' = an_bias s \<and> an_logs s' = an_logs s
       \<and> an_bias_inited s' \<and> an_logs_inited s'"
  using assms
proof (induction cs arbitrary: s)
  case Nil
  then show ?case by simp
next
  case (Cons c cs)
  then obtain s1 y l where f: "ActNorm_forward (s\<lparr>an_training := call_training c\<rparr>)
            (call_x c) (call_logdet c) (call_reverse c) = Inr (s1, y, l)" and r: "run s1 cs = Inr s'"
    unfolding run_Cons_Inr by blast
  have "s1 = s\<lparr>an_training := call_training c\<rparr>"
    using ActNorm_forward_state[OF f] Cons.prems(2,3) by simp
  then show ?case using Cons.IH[OF r] Cons.prems(2,3) by simp
qed

text \<open>
  Claim C3, as amended. Over any sequence of \<^verbatim>\<open>forward\<close> calls that return: calls made in
  non-training mode leave \<^verbatim>\<open>bias\<close>, \<^verbatim>\<open>logs\<close> and both latches as they were; the first call
  made in training mode (whether or not it is the first call) leaves both latches set;
  and no call after it modifies \<^verbatim>\<open>bias\<close> or \<^verbatim>\<open>logs\<close>.
\<close>
theorem ActNorm_parameters_written_once:
  "(run s0 cs = Inr s \<and> (\<forall>c\<in>set cs. \<not> call_training c) \<longrightarrow>
        an_bias s = an_bias s0 \<and> an_logs s = an_logs s0
      \<and> an_bias_inited s = an_bias_inited s0 \<and> an_logs_inited s = an_logs_inited s0)
   \<and> (run s0 (pre @ c # post) = Inr s3 \<and> (\<forall>c\<in>set pre. \<not> call_training c) \<and> call_training c \<longrightarrow>
        (\<exists>s1 s2. run s0 pre = Inr s1 \<and> run s1 [c] = Inr s2 \<and> run s2 post = Inr s3
          \<and> an_bias s1 = an_bias s0 \<and> an_logs s1 = an_logs s0
          \<and> an_bias_inited s1 = an_bias_inited s0 \<and> an_logs_inited s1 = an_logs_inited s0
          \<and> an_bias_inited s2 \<and> an_logs_inited s2
          \<and> an_bias s3 = an_bias s2 \<and> an_logs s3 = an_logs s2))"
proof -
  have A: "an_bias s = an_bias s0 \<and> an_logs s = an_logs s0
      \<and> an_bias_inited s = an_bias_inited s0 \<and> an_logs_inited s = an_logs_inited s0"
    if "run s0 cs = Inr s \<and> (\<forall>c\<in>set cs. \<not> call_training c)"
    using that run_not_training by blast
  have B: "\<exists>s1 s2. run s0 pre = Inr s1 \<and> run s1 [c] = Inr s2 \<and> run s2 post = Inr s3
          \<and> an_bias s1 = an_bias s0 \<and> an_logs s1 = an_logs s0
          \<and> an_bias_inited s1 = an_bias_inited s0 \<and> an_logs_inited s1 = an_logs_inited s0
          \<and> an_bias_inited s2 \<and> an_logs_inited s2
          \<and> an_bias s3 = an_bias s2 \<and> an_logs s3 = an_logs s2"
    if a: "run s0 (pre @ c # post) = Inr s3 \<and> (\<forall>c\<in>set pre. \<not> call_training c) \<and> call_training c"
  proof -
    obtain s1 where s1: "run s0 pre = Inr s1" and r1: "run s1 (c # post) = Inr s3"
      using a unfolding run_append bnd_eq_Inr by blast
    from r1 obtain s2 y l where f: "ActNorm_forward (s1\<lparr>an_training := call_training c\<rparr>)
            (call_x c) (call_logdet c) (call_reverse c) = Inr (s2, y, l)" and r2: "run s2 post = Inr s3"
      unfolding run_Cons_Inr by blast
    have c1: "run s1 [c] = Inr s2" using f by (simp add: bnd_def)
    have i2: "an_bias_inited s2 \<and> an_logs_inited s2" using ActNorm_forward_state[OF f] a by simp
    have n1: "an_bias s1 = an_bias s0 \<and> an_logs s1 = an_logs s0
      \<and> an_bias_inited s1 = an_bias_inited s0 \<and> an_logs_inited s1 = an_logs_inited s0"
      using run_not_training[OF s1] a by blast
    have n3: "an_bias s3 = an_bias s2 \<and> an_logs s3 = an_logs s2"
      using run_inited[OF r2] i2 by blast
    show ?thesis using s1 c1 r2 n1 i2 n3 by blast
  qed
  show ?thesis using A B by blast
qed

lemma an_ok_init [simp]: "an_ok (ActNorm_init c sc lf bv)"
  by (simp add: an_ok_def ActNorm_init_def zeros_def wf_tensor_def)

lemma an_ok_training [simp]: "an_ok (s\<lparr>an_training := t\<rparr>) = an_ok s"
  by (simp add: an_ok_def)

lemma run_forward_ok:
  assumes "an_ok s" "0 < an_scale s" "an_logscale_factor s \<noteq> 0"
    and "\<forall>c\<in>set cs. \<not> call_reverse c \<and>
           (\<exists>n h w. shape (call_x c) = [n, an_num_channels s, h, w] \<and> 0 < n * an_num_channels s * h * w)"
  shows "\<exists>s'. run s cs = Inr s'"
  using assms
proof (induction cs arbitrary: s)
  case Nil
  then show ?case by simp
next
  case (Cons c cs)
  let ?s = "s\<lparr>an_training := call_training c\<rparr>"
  obtain n h w where sh: "shape (call_x c) = [n, an_num_channels ?s, h, w]"
    and ne: "0 < n * an_num_channels ?s * h * w" and nr: "\<not> call_reverse c"
    using Cons.prems(4) by auto
  have ok: "an_ok ?s" using Cons.prems(1) by simp
  have i: "an_training ?s \<and> \<not> (an_bias_inited ?s \<and> an_logs_inited ?s) \<longrightarrow>
               0 < n * an_num_channels ?s * h * w \<and> 0 < an_scale ?s \<and> an_logscale_factor ?s \<noteq> 0"
    using ne Cons.prems(2,3) by simp
  obtain s2 y l where f: "ActNorm_forward ?s (call_x c) (call_logdet c) False = Inr (s2, y, l)"
    and p: "an_ok s2" "an_num_channels s2 = an_num_channels ?s"
      "an_logscale_factor s2 = an_logscale_factor ?s" "an_scale s2 = an_scale ?s"
    using ActNorm_forward_fwd[OF ok sh i, of "call_logdet c"] by blast
  have "\<exists>s'. run s2 cs = Inr s'"
    using Cons.IH[of s2] p Cons.prems by simp
  then show ?case using f nr by (auto simp: bnd_def)
qed

lemma ActNorm_forward_bias_init:
  assumes f: "ActNorm_forward s x ld False = Inr (s', y, l)"
    and "\<not> an_bias_inited s" and ib: "initialize_bias s x = Inr sb"
  shows "an_bias s' = an_bias sb"
proof -
  have "bnd (actnorm_center s x False) (\<lambda>(self, x). actnorm_scale self x ld False)
      = Inr (s', y, l)"
    using f by (simp add: ActNorm_forward_def split: if_splits)
  then obtain s1 xc where c: "actnorm_center s x False = Inr (s1, xc)"
    and sc: "actnorm_scale s1 xc ld False = Inr (s', y, l)"
    by (auto simp: bnd_eq_Inr)
  have "s1 = sb" using c assms(2) ib by (auto simp: actnorm_center_def bnd_eq_Inr)
  then show ?thesis using actnorm_scale_state[OF sc] by auto
qed

lemma initialize_bias_example:
  "initialize_bias (ActNorm_init 1 1 3 False) \<lparr>shape = [1, 1, 1, 1], data = [2]\<rparr>
     = Inr ((ActNorm_init 1 1 3 False)\<lparr>an_bias := \<lparr>shape = [1, 1, 1, 1], data = [- 2]\<rparr>,
                                     an_bias_inited := True\<rparr>)"
  by (simp add: initialize_bias_def ActNorm_init_def reduce_mean_def sum_keepdim_def
       keep_shape_def reduced_count_def numel_def tabulate_def bcast_index_def
       copy_into_def inplace_op_def bin_op_def broadcast_shapes_def get_at_def tmap_def
       zeros_def bnd_def Let_def upt_rec[of _ "numeral _"] upt_rec[of _ "Suc _"])

text \<open>
  Claim C3 as stated fails: a first call in non-training mode leaves the zero bias, and
  the training-mode call after it writes the batch statistics \<open>- 2\<close> into the bias.
\<close>

theorem ActNorm_first_call_counterexample:
  "map_sum id an_bias
     (run (ActNorm_init 1 1 3 False)
        [\<lparr>call_training = False, call_x = \<lparr>shape = [1, 1, 1, 1], data = [2]\<rparr>,
          call_logdet = None, call_reverse = False\<rparr>])
     = Inr \<lparr>shape = [1, 1, 1, 1], data = [0]\<rparr>
   \<and> map_sum id an_bias
     (run (ActNorm_init 1 1 3 False)
        [\<lparr>call_training = False, call_x = \<lparr>shape = [1, 1, 1, 1], data = [2]\<rparr>,
          call_logdet = None, call_reverse = False\<rparr>,
         \<lparr>call_training = True, call_x = \<lparr>shape = [1, 1, 1, 1], data = [2]\<rparr>,
          call_logdet = None, call_reverse = False\<rparr>])
     = Inr \<lparr>shape = [1, 1, 1, 1], data = [- 2]\<rparr>"
proof -
  let ?S = "ActNorm_init 1 1 3 False"
  let ?X = "\<lparr>shape = [1, 1, 1, 1], data = [2::real]\<rparr>"
  let ?C1 = "\<lparr>call_training = False, call_x = ?X, call_logdet = None, call_reverse = False\<rparr>"
  let ?C2 = "\<lparr>call_training = True, call_x = ?X, call_logdet = None, call_reverse = False\<rparr>"
  have c: "an_num_channels ?S = 1" "an_scale ?S = 1" "an_logscale_factor ?S = 3"
    "an_training ?S" "\<not> an_bias_inited ?S" "an_bias ?S = \<lparr>shape = [1, 1, 1, 1], data = [0]\<rparr>"
    by (simp_all add: ActNorm_init_def zeros_def)
  have "\<exists>s'. run ?S [?C1, ?C2] = Inr s'"
    by (rule run_forward_ok) (simp_all add: ActNorm_init_def an_ok_def zeros_def wf_tensor_def)
  then obtain s2 where r: "run ?S [?C1, ?C2] = Inr s2" by blast
  then obtain s1 y l where f1: "ActNorm_forward (?S\<lparr>an_training := False\<rparr>) ?X None False = Inr (s1, y, l)"
    and r2: "run s1 [?C2] = Inr s2"
    unfolding run_Cons_Inr by auto
  have s1: "s1 = ?S\<lparr>an_training := False\<rparr>" using ActNorm_forward_state[OF f1] by simp
  have r1: "run ?S [?C1] = Inr s1" using f1 by (simp add: bnd_def)
  have b1: "an_bias s1 = \<lparr>shape = [1, 1, 1, 1], data = [0]\<rparr>" using s1 c by simp
  have bk: "s1\<lparr>an_training := True\<rparr> = ?S" using s1 by (simp add: ActNorm_init_def)
  obtain y' l' where f2: "ActNorm_forward ?S ?X None False = Inr (s2, y', l')"
    using r2 unfolding run_Cons_Inr by (auto simp: bk)
  have b2: "an_bias s2 = \<lparr>shape = [1, 1, 1, 1], data = [- 2]\<rparr>"
    using ActNorm_forward_bias_init[OF f2 c(5) initialize_bias_example] by simp
  show ?thesis using r r1 b1 b2 by simp
qed

text \<open>The theorem at a fresh layer: one call in non-training mode, then two in training mode.\<close>

theorem ActNorm_parameters_written_once_witness:
  "\<exists>s s1 s2 s3.
      run (ActNorm_init 1 1 3 False)
        [\<lparr>call_training = False, call_x = \<lparr>shape = [1, 1, 1, 1], data = [2]\<rparr>,
          call_logdet = None, call_reverse = False\<rparr>] = Inr s
    \<and> an_bias s = an_bias (ActNorm_init 1 1 3 False)
    \<and> an_logs s = an_logs (ActNorm_init 1 1 3 False)
    \<and> run (ActNorm_init 1 1 3 False)
        [\<lparr>call_training = False, call_x = \<lparr>shape = [1, 1, 1, 1], data = [2]\<rparr>,
          call_logdet = None, call_reverse = False\<rparr>] = Inr s1
    \<and> run s1 [\<lparr>call_training = True, call_x = \<lparr>shape = [1, 1, 1, 1], data = [2]\<rparr>,
          call_logdet = None, call_reverse = False\<rparr>] = Inr s2
    \<and> run s2 [\<lparr>call_training = True, call_x = \<lparr>shape = [1, 1, 1, 1], data = [5]\<rparr>,
          call_logdet = None, call_reverse = False\<rparr>] = Inr s3
    \<and> an_bias_inited s2 \<and> an_logs_inited s2
    \<and> an_bias s3 = an_bias s2 \<and> an_logs s3 = an_logs s2"
proof -
  let ?S = "ActNorm_init 1 1 3 False"
  let ?C1 = "\<lparr>call_training = False, call_x = \<lparr>shape = [1, 1, 1, 1], data = [2::real]\<rparr>,
          call_logdet = None, call_reverse = False\<rparr>"
  let ?C2 = "\<lparr>call_training = True, call_x = \<lparr>shape = [1, 1, 1, 1], data = [2::real]\<rparr>,
          call_logdet = None, call_reverse = False\<rparr>"
  let ?C3 = "\<lparr>call_training = True, call_x = \<lparr>shape = [1, 1, 1, 1], data = [5::real]\<rparr>,
          call_logdet = None, call_reverse = False\<rparr>"
  have c: "an_num_channels ?S = 1" "an_scale ?S = 1" "an_logscale_factor ?S = 3"
    by (simp_all add: ActNorm_init_def)
  have "\<exists>s'. run ?S [?C1] = Inr s'"
    by (rule run_forward_ok) (simp_all add: ActNorm_init_def an_ok_def zeros_def wf_tensor_def)
  then obtain s where s: "run ?S [?C1] = Inr s" by blast
  have "\<exists>s'. run ?S ([?C1] @ ?C2 # [?C3]) = Inr s'"
    by (rule run_forward_ok) (simp_all add: ActNorm_init_def an_ok_def zeros_def wf_tensor_def)
  then obtain s3 where s3: "run ?S ([?C1] @ ?C2 # [?C3]) = Inr s3" by blast
  have h1: "run ?S [?C1] = Inr s \<and> (\<forall>c\<in>set [?C1]. \<not> call_training c)" using s by simp
  have h2: "run ?S ([?C1] @ ?C2 # [?C3]) = Inr s3 \<and> (\<forall>c\<in>set [?C1]. \<not> call_training c)
      \<and> call_training ?C2" using s3 by simp
  show ?thesis
    using ActNorm_parameters_written_once[of ?S "[?C1]" s "[?C1]" ?C2 "[?C3]" s3] h1 h2
    by blast
qed

lemma zeros_tabulate: "zeros sh = tabulate sh (\<lambda>ix. 0)"
  by (simp add: zeros_def tabulate_def map_replicate_const)

lemma shape_zeros [simp]: "shape (zeros sh) = sh"
  by (simp add: zeros_def)

lemma get_at_zeros: "list_all2 (<) ix sh \<Longrightarrow> get_at (zeros sh) ix = 0"
  by (simp add: zeros_tabulate get_at_tabulate)

lemma tabulate_zero:
  assumes "\<And>ix. list_all2 (<) ix sh \<Longrightarrow> f ix = 0"
  shows "tabulate sh f = zeros sh"
  unfolding zeros_tabulate using assms by (rule tabulate_cong)

lemma sum_list_zero:
  assumes "\<And>a. a \<in> set xs \<Longrightarrow> f a = (0::real)"
  shows "sum_list (map f xs) = 0"
  using assms by (induction xs) auto

lemma length4: "length xs = 4 \<Longrightarrow> \<exists>a b c d. xs = [a, b, c, d]"
  by (auto simp: eval_nat_numeral length_Suc_conv)

lemma bin_op_Inr:
  assumes "bin_op f a b = Inr r"
  shows "r = tabulate (shape r) (\<lambda>ix. f (get_at a (bcast_index (shape a) ix))
                                   (get_at b (bcast_index (shape b) ix)))"
proof (cases "broadcast_shapes (shape a) (shape b)")
  case None
  then show ?thesis using assms by (simp add: bin_op_def)
next
  case (Some sh)
  then show ?thesis using assms by (auto simp: bin_op_def)
qed

lemma inplace_op_Inr:
  assumes "inplace_op f a b = Inr y"
  shows "y = tabulate (shape a) (\<lambda>ix. f (get_at a (bcast_index (shape a) ix))
                                   (get_at b (bcast_index (shape b) ix)))"
proof -
  have "bin_op f a b = Inr y \<and> shape y = shape a"
    using assms by (auto simp: inplace_op_def bnd_eq_Inr split: if_splits)
  then show ?thesis using bin_op_Inr[of f a b y] by simp
qed

lemma inplace_mul_zeros:
  assumes "inplace_op (*) (zeros sh) e = Inr y"
  shows "y = zeros sh"
proof -
  have "y = tabulate sh (\<lambda>ix. get_at (zeros sh) (bcast_index sh ix) * get_at e (bcast_index (shape e) ix))"
    using inplace_op_Inr[OF assms] by simp
  also have "\<dots> = zeros sh"
    by (rule tabulate_zero) (simp add: bcast_index_same get_at_zeros)
  finally show ?thesis .
qed

lemma conv2d_Inr:
  assumes "conv2d x w b stride padding dilation groups = Inr y"
  shows "length (shape w) = 4"
    and "case b of None \<Rightarrow> True | Some bt \<Rightarrow> shape bt = [shape w ! 0]"
    and "y = tabulate [shape x ! 0, shape w ! 0,
                 conv_out (shape x ! 2) (shape w ! 2) (nat (fst padding)) stride dilation,
                 conv_out (shape x ! 3) (shape w ! 3) (nat (snd padding)) stride dilation]
               (conv2d_elem x w b stride (nat (fst padding)) (nat (snd padding)) dilation groups)"
  using assms unfolding conv2d_def Let_def
  by (simp_all split: if_splits option.splits)

lemma conv2d_elem_zero:
  assumes w: "wsh = [a, b, c, d]" and i: "ix ! 1 < a"
  shows "conv2d_elem x (zeros wsh) (Some (zeros [a])) stride ph pw dilation groups ix = 0"
proof -
  have b0: "data (zeros [a]) ! (ix ! 1) = 0" using i by (simp add: zeros_def)
  have "get_at (zeros wsh) [ix ! 1, ci, ki, kj] = 0" if "ci < b" "ki < c" "kj < d" for ci ki kj
    using that i w by (intro get_at_zeros) simp
  then have "sum_list (map (\<lambda>(ci, ki, kj).
         get_at (zeros wsh) [ix ! 1, ci, ki, kj] *
         padded x ph pw (ix ! 0) ((ix ! 1) div (a div groups) * b + ci)
           (ix ! 2 * stride + ki * dilation) (ix ! 3 * stride + kj * dilation))
       (List.product [0..<b] (List.product [0..<c] [0..<d]))) = 0"
    by (intro sum_list_zero) auto
  then show ?thesis using b0 w by (simp add: conv2d_elem_def)
qed

lemma conv2d_zero_weights:
  assumes "conv2d x (zeros wsh) (Some (zeros bsh)) stride padding dilation groups = Inr y"
  shows "y = zeros (shape y)"
proof -
  note c = conv2d_Inr[OF assms]
  obtain a b c' d where w: "wsh = [a, b, c', d]" using c(1) length4[of wsh] by auto
  have bs: "bsh = [a]" using c(2) w by simp
  let ?osh = "[shape x ! 0, a,
                 conv_out (shape x ! 2) c' (nat (fst padding)) stride dilation,
                 conv_out (shape x ! 3) d (nat (snd padding)) stride dilation]"
  have y: "y = tabulate ?osh
               (conv2d_elem x (zeros wsh) (Some (zeros [a])) stride (nat (fst padding)) (nat (snd padding)) dilation groups)"
    using c(3) w bs by simp
  have "tabulate ?osh
               (conv2d_elem x (zeros wsh) (Some (zeros [a])) stride (nat (fst padding)) (nat (snd padding)) dilation groups)
        = zeros ?osh"
  proof (rule tabulate_zero)
    fix ix assume "list_all2 (<) ix ?osh"
    then have "ix ! 1 < a" by (auto simp: list_all2_Cons2)
    then show "conv2d_elem x (zeros wsh) (Some (zeros [a])) stride (nat (fst padding)) (nat (snd padding)) dilation groups ix = 0"
      using conv2d_elem_zero[OF w] by simp
  qed
  then show ?thesis using y by simp
qed

lemma Conv2dZeros_init_Inr:
  assumes "Conv2dZeros_init ci co ks st pt lf dl g b rnd = Inr L"
  shows "cv_weight L = zeros [co, ci div g, fst ks, snd ks]" "cv_bias L = Some (zeros [co])"
    "cz_logs L = zeros [co, 1, 1]" "cv_stride L = st" "cv_dilation L = dl" "cv_groups L = g"
    "get_padding pt ks st = Inr (cv_padding L)"
  using assms unfolding Conv2dZeros_init_def nn_Conv2d_init_def bnd_eq_Inr
  by (auto split: if_splits option.splits)

lemma Conv2dZeros_zero_output:
  assumes i: "Conv2dZeros_init ci co ks st pt lf dl g b rnd = Inr L"
    and f: "Conv2dZeros_forward L x = Inr y"
  shows "y = zeros (shape y)"
proof -
  note p = Conv2dZeros_init_Inr[OF i]
  obtain y0 where c: "conv2d x (zeros [co, ci div g, fst ks, snd ks]) (Some (zeros [co]))
        (cv_stride L) (cv_padding L) (cv_dilation L) (cv_groups L) = Inr y0"
    and m: "inplace_op (*) y0 (tmap exp (tmap (\<lambda>v. v * cz_logscale_factor L) (cz_logs L))) = Inr y"
    using f p(1,2) by (auto simp: Conv2dZeros_forward_def nn_Conv2d_forward_def bnd_eq_Inr)
  have "y0 = zeros (shape y0)" using conv2d_zero_weights[OF c] .
  then have "y = zeros (shape y0)" using m inplace_mul_zeros[of "shape y0" _ y] by simp
  then show ?thesis by simp
qed

lemma broadcast_rev_Nil2 [simp]: "broadcast_rev xs [] = Some xs"
  by (cases xs) auto

lemma inplace_mul_zeros_ok:
  assumes "broadcast_shapes sh (shape e) = Some sh"
  shows "inplace_op (*) (zeros sh) e = Inr (zeros sh)"
proof -
  have "\<exists>y. inplace_op (*) (zeros sh) e = Inr y"
    using assms by (simp add: inplace_op_def bin_op_def bnd_def)
  then show ?thesis using inplace_mul_zeros by blast
qed

lemma Conv2dZeros_default_returns:
  assumes i: "Conv2dZeros_init ci co (3, 3) 1 ''SAME'' lf 1 1 True rnd = Inr L"
    and sh: "shape x = [n, ci, h, w]" and h: "0 < h" and w: "0 < w"
  shows "Conv2dZeros_forward L x = Inr (zeros [n, co, h, w])"
proof -
  note p = Conv2dZeros_init_Inr[OF i]
  have pad: "cv_padding L = (1, 1)" using p(7) by (simp add: get_padding_def)
  have co: "conv_out h 3 (Suc 0) (Suc 0) (Suc 0) = h" "conv_out w 3 (Suc 0) (Suc 0) (Suc 0) = w"
    using h w by (simp_all add: conv_out_def)
  obtain y0 where c: "conv2d x (cv_weight L) (cv_bias L)
        (cv_stride L) (cv_padding L) (cv_dilation L) (cv_groups L) = Inr y0"
    and s0: "shape y0 = [n, co, h, w]"
    using p(1,2,4,5,6) pad sh h w co by (simp add: conv2d_def Let_def)
  have "y0 = zeros (shape y0)" using conv2d_zero_weights[of x _ _ _ _ _ _ y0] c p(1,2) by simp
  then have y0: "y0 = zeros [n, co, h, w]" using s0 by simp
  have "inplace_op (*) (zeros [n, co, h, w])
          (tmap exp (tmap (\<lambda>v. v * cz_logscale_factor L) (cz_logs L))) = Inr (zeros [n, co, h, w])"
    by (rule inplace_mul_zeros_ok) (simp add: p(3) broadcast_shapes_def)
  then show ?thesis using c y0
    by (simp add: Conv2dZeros_forward_def nn_Conv2d_forward_def bnd_def)
qed

lemma list_all2_last:
  assumes "list_all2 P xs (ys @ [y])"
  shows "P (last xs) y"
proof -
  have l: "length xs = Suc (length ys)" using assms by (auto dest: list_all2_lengthD)
  then have ne: "xs \<noteq> []" by auto
  have "P (xs ! length ys) ((ys @ [y]) ! length ys)"
    using assms l by (auto simp: list_all2_conv_all_nth)
  then show ?thesis using l ne by (simp add: last_conv_nth)
qed

lemma linear_Inr:
  assumes "linear x w b = Inr y"
  shows "length (shape w) = 2" "shape x \<noteq> []"
    and "case b of None \<Rightarrow> True | Some bt \<Rightarrow> shape bt = [shape w ! 0]"
    and "y = tabulate (butlast (shape x) @ [shape w ! 0])
          (\<lambda>ix. (case b of None \<Rightarrow> 0 | Some bt \<Rightarrow> data bt ! last ix) +
             sum_list (map (\<lambda>k. get_at x (butlast ix @ [k]) * get_at w [last ix, k])
                         [0..<shape w ! 1]))"
  using assms unfolding linear_def by (simp_all split: if_splits option.splits)

lemma linear_zero_weights:
  assumes "linear x (zeros [fo, fi]) (Some (zeros [fo])) = Inr y"
  shows "y = zeros (butlast (shape x) @ [fo])"
proof -
  note c = linear_Inr[OF assms]
  have "tabulate (butlast (shape x) @ [fo])
          (\<lambda>ix. data (zeros [fo]) ! last ix +
             sum_list (map (\<lambda>k. get_at x (butlast ix @ [k]) * get_at (zeros [fo, fi]) [last ix, k])
                         [0..<fi])) = zeros (butlast (shape x) @ [fo])"
  proof (rule tabulate_zero)
    fix ix assume "list_all2 (<) ix (butlast (shape x) @ [fo])"
    then have l: "last ix < fo" by (rule list_all2_last)
    have b0: "data (zeros [fo]) ! last ix = 0" using l by (simp add: zeros_def)
    have "get_at (zeros [fo, fi]) [last ix, k] = 0" if "k < fi" for k
      using that l by (intro get_at_zeros) simp
    then have "sum_list (map (\<lambda>k. get_at x (butlast ix @ [k]) * get_at (zeros [fo, fi]) [last ix, k])
                         [0..<fi]) = 0"
      by (intro sum_list_zero) auto
    then show "data (zeros [fo]) ! last ix +
             sum_list (map (\<lambda>k. get_at x (butlast ix @ [k]) * get_at (zeros [fo, fi]) [last ix, k])
                         [0..<fi]) = 0" using b0 by simp
  qed
  then show ?thesis using c(4) by simp
qed

lemma LinearZeros_init_Inr:
  assumes "LinearZeros_init fi fo b lf rnd = Inr M"
  shows "ln_weight M = zeros [fo, fi]" "ln_bias M = Some (zeros [fo])" "lz_logs M = zeros [fo]"
  using assms unfolding LinearZeros_init_def Let_def
  by (auto split: if_splits option.splits)

lemma LinearZeros_zero_output:
  assumes i: "LinearZeros_init fi fo b lf rnd = Inr M"
    and f: "LinearZeros_forward M x = Inr y"
  shows "y = zeros (shape y)"
proof -
  note p = LinearZeros_init_Inr[OF i]
  obtain y0 where c: "linear x (zeros [fo, fi]) (Some (zeros [fo])) = Inr y0"
    and m: "inplace_op (*) y0 (tmap exp (tmap (\<lambda>v. v * lz_logscale_factor M) (lz_logs M))) = Inr y"
    using f p(1,2) by (auto simp: LinearZeros_forward_def bnd_eq_Inr)
  have "y0 = zeros (butlast (shape x) @ [fo])" using linear_zero_weights[OF c] .
  then have "y = zeros (butlast (shape x) @ [fo])"
    using m inplace_mul_zeros[of "butlast (shape x) @ [fo]" _ y] by simp
  then show ?thesis by simp
qed

lemma LinearZeros_default_returns:
  assumes i: "LinearZeros_init fi fo True lf rnd = Inr M" and sh: "shape x = pre @ [fi]"
  shows "LinearZeros_forward M x = Inr (zeros (pre @ [fo]))"
proof -
  note p = LinearZeros_init_Inr[OF i]
  obtain y0 where c: "linear x (zeros [fo, fi]) (Some (zeros [fo])) = Inr y0"
    using sh by (simp add: linear_def)
  have y0: "y0 = zeros (pre @ [fo])" using linear_zero_weights[OF c] sh by simp
  have "inplace_op (*) (zeros (pre @ [fo]))
          (tmap exp (tmap (\<lambda>v. v * lz_logscale_factor M) (lz_logs M))) = Inr (zeros (pre @ [fo]))"
    by (rule inplace_mul_zeros_ok) (simp add: p(3) broadcast_shapes_def)
  then show ?thesis using c y0 p(1,2) by (simp add: LinearZeros_forward_def bnd_def)
qed

text \<open>
  Claim C8, as amended. A \<^verbatim>\<open>Conv2dZeros\<close> or \<^verbatim>\<open>LinearZeros\<close> layer as its constructor returns
  it (weight, bias and logs zero) maps every input of finite entries on which \<^verbatim>\<open>forward\<close>
  returns to the all-zero tensor of the output's shape; and \<^verbatim>\<open>forward\<close> does return, with
  the output shape of the layer, on every rank-4 input of the configured channels with at
  least one pixel (for the default 3 by 3 kernel with 'SAME' padding) and on every input
  whose last axis has \<^verbatim>\<open>in_features\<close> entries.
\<close>

theorem zero_initialised_layers_output_zero:
  "(Conv2dZeros_init ci co ks st pt lf dl g b rnd = Inr L \<and> Conv2dZeros_forward L x = Inr y
      \<longrightarrow> y = zeros (shape y))
   \<and> (Conv2dZeros_init ci co (3, 3) 1 ''SAME'' lf 1 1 True rnd = Inr L' \<and>
      shape x' = [n, ci, h, w] \<and> 0 < h \<and> 0 < w
      \<longrightarrow> Conv2dZeros_forward L' x' = Inr (zeros [n, co, h, w]))
   \<and> (LinearZeros_init fi fo b' lf' rnd' = Inr M \<and> LinearZeros_forward M u = Inr v
      \<longrightarrow> v = zeros (shape v))
   \<and> (LinearZeros_init fi fo True lf' rnd' = Inr M' \<and> shape u' = pre @ [fi]
      \<longrightarrow> LinearZeros_forward M' u' = Inr (zeros (pre @ [fo])))"
proof (intro conjI impI)
  assume "Conv2dZeros_init ci co ks st pt lf dl g b rnd = Inr L \<and> Conv2dZeros_forward L x = Inr y"
  then show "y = zeros (shape y)" using Conv2dZeros_zero_output[of ci co ks st pt lf dl g b rnd L x y] by simp
next
  assume "Conv2dZeros_init ci co (3, 3) 1 ''SAME'' lf 1 1 True rnd = Inr L' \<and>
      shape x' = [n, ci, h, w] \<and> 0 < h \<and> 0 < w"
  then show "Conv2dZeros_forward L' x' = Inr (zeros [n, co, h, w])"
    using Conv2dZeros_default_returns[of ci co lf rnd L' x' n h w] by simp
next
  assume "LinearZeros_init fi fo b' lf' rnd' = Inr M \<and> LinearZeros_forward M u = Inr v"
  then show "v = zeros (shape v)" using LinearZeros_zero_output[of fi fo b' lf' rnd' M u v] by simp
next
  assume "LinearZeros_init fi fo True lf' rnd' = Inr M' \<and> shape u' = pre @ [fi]"
  then show "LinearZeros_forward M' u' = Inr (zeros (pre @ [fo]))"
    using LinearZeros_default_returns[of fi fo lf' rnd' M' u' pre] by simp
qed

text \<open>The theorem at a convolution from one channel to two and a linear layer from two features to one.\<close>

theorem zero_initialised_layers_output_zero_witness:
  "\<exists>L M. Conv2dZeros_init 1 2 (3, 3) 1 ''SAME'' 3 1 1 True (\<lambda>ix. 7) = Inr L
     \<and> Conv2dZeros_forward L \<lparr>shape = [1, 1, 1, 2], data = [5, 6]\<rparr> = Inr (zeros [1, 2, 1, 2])
     \<and> zeros [1, 2, 1, 2] = zeros (shape (zeros [1, 2, 1, 2]))
     \<and> LinearZeros_init 2 1 True 3 (\<lambda>ix. 7) = Inr M
     \<and> LinearZeros_forward M \<lparr>shape = [3, 2], data = [1, 2, 3, 4, 5, 6]\<rparr> = Inr (zeros [3, 1])
     \<and> zeros [3, 1] = zeros (shape (zeros [3, 1]))"
proof -
  obtain L where L: "Conv2dZeros_init 1 2 (3, 3) 1 ''SAME'' 3 1 1 True (\<lambda>ix. 7) = Inr L"
    by (simp add: Conv2dZeros_init_def nn_Conv2d_init_def get_padding_def bnd_def)
  obtain M where M: "LinearZeros_init 2 1 True 3 (\<lambda>ix. 7) = Inr M"
    by (simp add: LinearZeros_init_def Let_def)
  let ?x = "\<lparr>shape = [1, 1, 1, 2], data = [5, 6::real]\<rparr>"
  let ?u = "\<lparr>shape = [3, 2], data = [1, 2, 3, 4, 5, 6::real]\<rparr>"
  note t = zero_initialised_layers_output_zero[where ci=1 and co=2 and ks="(3, 3)" and st=1
        and pt="''SAME''" and lf=3 and dl=1 and g=1 and b=True and rnd="\<lambda>ix. 7" and L=L
        and x="?x" and y="zeros [1, 2, 1, 2]" and L'=L and x'="?x" and n=1 and h=1 and w=2
        and fi=2 and fo=1 and b'=True and lf'=3 and rnd'="\<lambda>ix. 7" and M=M and u="?u"
        and v="zeros [3, 1]" and M'=M and u'="?u" and pre="[3]"]
  have c: "Conv2dZeros_forward L ?x = Inr (zeros [1, 2, 1, 2])" using t L by simp
  have l: "LinearZeros_forward M ?u = Inr (zeros [3, 1])" using t M by simp
  show ?thesis using t L M c l by auto
qed

text \<open>
  Claim C8 as stated fails: an input is a tensor of floats, and on an entry \<open>inf\<close> the zero
  weight gives \<open>0 * inf = nan\<close>, so the output of either layer is \<open>nan\<close>, not zero.
\<close>

theorem zero_initialised_layers_counterexample:
  "bnd (LinearZeros_init 1 1 True 3 (\<lambda>ix. 0))
       (\<lambda>M. LinearZeros_forward_ext M \<lparr>shape = [1, 1], data = [PInf]\<rparr>)
     = Inr \<lparr>shape = [1, 1], data = [NaN]\<rparr>
   \<and> bnd (Conv2dZeros_init 1 1 (3, 3) 1 ''SAME'' 3 1 1 True (\<lambda>ix. 0))
       (\<lambda>L. Conv2dZeros_forward_ext L \<lparr>shape = [1, 1, 1, 1], data = [PInf]\<rparr>)
     = Inr \<lparr>shape = [1, 1, 1, 1], data = [NaN]\<rparr>"
proof -
  have 1: "bnd (LinearZeros_init 1 1 True 3 (\<lambda>ix. 0))
       (\<lambda>M. LinearZeros_forward_ext M \<lparr>shape = [1, 1], data = [PInf]\<rparr>)
     = Inr \<lparr>shape = [1, 1], data = [NaN]\<rparr>"
    by (simp add: LinearZeros_init_def LinearZeros_forward_ext_def linear_def bnd_def Let_def
        tabulate_def get_at_def tmap_def zeros_def inplace_op_def bin_op_def
        broadcast_shapes_def bcast_index_def zero_xreal_def)
  have 2: "bnd (Conv2dZeros_init 1 1 (3, 3) 1 ''SAME'' 3 1 1 True (\<lambda>ix. 0))
       (\<lambda>L. Conv2dZeros_forward_ext L \<lparr>shape = [1, 1, 1, 1], data = [PInf]\<rparr>)
     = Inr \<lparr>shape = [1, 1, 1, 1], data = [NaN]\<rparr>"
    by (simp add: Conv2dZeros_init_def nn_Conv2d_init_def get_padding_def
        Conv2dZeros_forward_ext_def conv2d_def conv2d_elem_def padded_def conv_out_def
        bnd_def Let_def
        tabulate_def get_at_def tmap_def zeros_def inplace_op_def bin_op_def
        broadcast_shapes_def bcast_index_def zero_xreal_def
        upt_rec[of _ "numeral _"] upt_rec[of _ "Suc _"] List.product.simps)
  show ?thesis using 1 2 by simp
qed

text \<open>
  Claim C2 fails on the code (a defect of the code). With \<^verbatim>\<open>reverse=False\<close> the body of
  \<^verbatim>\<open>Split2d.forward\<close> reads \<^verbatim>\<open>input.shape\<close>, where \<^verbatim>\<open>input\<close> is Python's builtin function:
  for every argument \<open>x\<close> and every accumulator the call raises AttributeError, and nothing
  is split or returned.
\<close>

theorem Split2d_forward_raises_AttributeError:
  "Split2d_forward None eps self x logdet False = Inl AttributeError"
  by (simp add: Split2d_forward_def)

text \<open>
  Claim C4 fails on the code (a defect of the code). \<^verbatim>\<open>Split2d.forward\<close> with
  \<^verbatim>\<open>reverse=False\<close> and an absent accumulator never returns: it raises AttributeError on the
  builtin \<^verbatim>\<open>input\<close>, and were \<^verbatim>\<open>input\<close> bound to a tensor, the unguarded
  \<^verbatim>\<open>logdet += ...\<close> would raise TypeError on \<^verbatim>\<open>None\<close>.
\<close>

theorem Split2d_forward_absent_accumulator_raises:
  "Split2d_forward input_name eps self x None False \<noteq> Inr r"
proof (cases input_name)
  case None
  then show ?thesis by (simp add: Split2d_forward_def)
next
  case (Some inp)
  then show ?thesis
    by (auto simp: Split2d_forward_def Let_def bnd_eq_Inr)
qed


text \<open>
  Claim C5 fails on the code (a defect of the code). With \<^verbatim>\<open>do_weightnorm=True\<close> the three
  \<^verbatim>\<open>F.normalize\<close> calls are evaluated and their results dropped: a 1 by 1 convolution with
  weight \<open>1/16\<close> and no \<^verbatim>\<open>actnorm\<close> returns the raw \<open>1/8\<close> on the input \<open>2\<close>, where the
  normalised tensor is \<open>1\<close>.
\<close>

theorem Conv2d_forward_returns_raw_convolution:
  "bnd (Conv2d_init 1 1 (1, 1) 1 ''SAME'' True False 1 1 (\<lambda>ix. 0) (\<lambda>ix. 1 / 16))
       (\<lambda>L. map_sum id snd (Conv2d_forward L \<lparr>shape = [1, 1, 1, 1], data = [2]\<rparr>))
     = Inr \<lparr>shape = [1, 1, 1, 1], data = [1 / 8]\<rparr>
   \<and> bnd (normalize \<lparr>shape = [1, 1, 1, 1], data = [1 / 8]\<rparr> 2 0) (\<lambda>a.
       bnd (normalize a 2 2) (\<lambda>b. normalize b 2 3))
     = Inr \<lparr>shape = [1, 1, 1, 1], data = [1]\<rparr>"
proof -
  have n: "normalize \<lparr>shape = [Suc 0, Suc 0, Suc 0, Suc 0], data = [v]\<rparr> 2 d
      = Inr \<lparr>shape = [Suc 0, Suc 0, Suc 0, Suc 0], data = [v / max \<bar>v\<bar> (1 / 10 ^ 12)]\<rparr>"
    if "d < 4" for v d
  proof -
    have "d = 0 \<or> d = 1 \<or> d = 2 \<or> d = 3" using that by arith
    then show ?thesis
      by (auto simp: normalize_def tabulate_def get_at_def sqrt_def[symmetric])
  qed
  have 1: "bnd (Conv2d_init 1 1 (1, 1) 1 ''SAME'' True False 1 1 (\<lambda>ix. 0) (\<lambda>ix. 1 / 16))
       (\<lambda>L. map_sum id snd (Conv2d_forward L \<lparr>shape = [1, 1, 1, 1], data = [2]\<rparr>))
     = Inr \<lparr>shape = [1, 1, 1, 1], data = [1 / 8]\<rparr>"
    by (simp add: Conv2d_init_def nn_Conv2d_init_def get_padding_def Conv2d_forward_def
        nn_Conv2d_forward_def conv2d_def conv2d_elem_def padded_def conv_out_def
        bnd_def Let_def tabulate_def get_at_def zeros_def n
        upt_rec[of _ "numeral _"] upt_rec[of _ "Suc _"] List.product.simps)
  have 2: "bnd (normalize \<lparr>shape = [1, 1, 1, 1], data = [1 / 8]\<rparr> 2 0) (\<lambda>a.
       bnd (normalize a 2 2) (\<lambda>b. normalize b 2 3))
     = Inr \<lparr>shape = [1, 1, 1, 1], data = [1]\<rparr>"
    by (simp add: n bnd_def)
  show ?thesis using 1 2 by simp
qed

lemma broadcast_rev_same: "broadcast_rev xs xs = Some xs"
  by (induction xs) auto

lemma broadcast_shapes_same [simp]: "broadcast_shapes sh sh = Some sh"
  by (simp add: broadcast_shapes_def broadcast_rev_same)

lemma bin_op_same_shape:
  assumes "shape a = shape b"
  shows "\<exists>r. bin_op f a b = Inr r \<and> shape r = shape a"
  using assms by (simp add: bin_op_def)

lemma length_filter_even_odd:
  "length (filter even [0..<n]) = (n + 1) div 2 \<and> length (filter odd [0..<n]) = n div 2"
  by (induction n) auto

lemma index_channels_ok:
  assumes "shape t = [n, c, h, w]" and "\<forall>k\<in>set idx. k < c"
  shows "\<exists>y. index_channels t idx = Inr y \<and> shape y = [n, length idx, h, w]"
proof -
  have "\<not> list_ex (\<lambda>k. c \<le> k) idx" using assms(2) by (auto simp: list_ex_iff)
  then show ?thesis using assms(1) by (simp add: index_channels_def)
qed

lemma Split2d_prior_ok:
  assumes ok: "Split2d_ok L" and ev: "even (sp_num_channels L)"
    and sh: "shape x = [n, sp_num_channels L div 2, h, w]" and h: "0 < h" and w: "0 < w"
  shows "\<exists>mean logs. prior L x = Inr (mean, logs)
           \<and> shape mean = [n, sp_num_channels L div 2, h, w]
           \<and> shape logs = [n, sp_num_channels L div 2, h, w]"
proof -
  let ?c = "sp_num_channels L" and ?cv = "sp_conv2d_zeros L"
  have p: "shape (cv_weight ?cv) = [?c, ?c div 2, 3, 3]" "map_option shape (cv_bias ?cv) = Some [?c]"
    "cv_stride ?cv = 1" "cv_padding ?cv = (1, 1)" "cv_dilation ?cv = 1" "cv_groups ?cv = 1"
    "shape (cz_logs ?cv) = [?c, 1, 1]"
    using ok by (simp_all add: Split2d_ok_def Let_def)
  obtain bt where bt: "cv_bias ?cv = Some bt" "shape bt = [?c]" using p(2) by auto
  have co: "conv_out h 3 (Suc 0) (Suc 0) (Suc 0) = h" "conv_out w 3 (Suc 0) (Suc 0) (Suc 0) = w"
    using h w by (simp_all add: conv_out_def)
  obtain y0 where c: "nn_Conv2d_forward ?cv x = Inr y0" and s0: "shape y0 = [n, ?c, h, w]"
    using p bt sh h w co by (simp add: nn_Conv2d_forward_def conv2d_def Let_def)
  have bs: "broadcast_shapes [n, ?c, h, w] [?c, Suc 0, Suc 0] = Some [n, ?c, h, w]"
    by (simp add: broadcast_shapes_def)
  obtain hh where hh: "Conv2dZeros_forward ?cv x = Inr hh" and sh': "shape hh = [n, ?c, h, w]"
    using c s0 bs p(7)
    by (simp add: Conv2dZeros_forward_def bnd_def inplace_op_def bin_op_def)
  have le: "length (filter even [0..<?c]) = ?c div 2" "length (filter odd [0..<?c]) = ?c div 2"
    using length_filter_even_odd[of ?c] ev by auto
  obtain m where m: "index_channels hh (filter even [0..<?c]) = Inr m"
    "shape m = [n, ?c div 2, h, w]"
    using index_channels_ok[OF sh', of "filter even [0..<?c]"] le by auto
  obtain l where l: "index_channels hh (filter odd [0..<?c]) = Inr l"
    "shape l = [n, ?c div 2, h, w]"
    using index_channels_ok[OF sh', of "filter odd [0..<?c]"] le by auto
  have "prior L x = Inr (m, l)" using hh sh' m(1) l(1) by (simp add: prior_def bnd_def)
  then show ?thesis using m(2) l(2) by blast
qed

lemma Split2d_reverse_returns:
  assumes ok: "Split2d_ok L" and ev: "even (sp_num_channels L)"
    and sh: "shape x = [n, sp_num_channels L div 2, h, w]" and h: "0 < h" and w: "0 < w"
  shows "\<exists>z. Split2d_forward input_name eps L x logdet True = Inr (z, logdet)"
proof -
  let ?sh = "[n, sp_num_channels L div 2, h, w]"
  obtain mean logs where p: "prior L x = Inr (mean, logs)" "shape mean = ?sh" "shape logs = ?sh"
    using Split2d_prior_ok[OF ok ev sh h w] by blast
  obtain t where t: "bin_op (*) (tmap exp logs) (GaussianDiag_eps eps mean) = Inr t" "shape t = ?sh"
    using bin_op_same_shape[of "tmap exp logs" "GaussianDiag_eps eps mean" "(*)"] p(2,3)
    by (auto simp: GaussianDiag_eps_def tmap_def tabulate_def)
  obtain z2 where z2: "bin_op (+) mean t = Inr z2" "shape z2 = ?sh"
    using bin_op_same_shape[of mean t "(+)"] p(2) t(2) by auto
  have s: "sample eps mean logs = Inr z2" using t(1) z2(1) by (simp add: sample_def bnd_def)
  obtain z where z: "cat1 x z2 = Inr z" using sh z2(2) by (simp add: cat1_def)
  show ?thesis using p(1) s z by (simp add: Split2d_forward_def bnd_def Let_def)
qed

lemma Split2d_reverse_frame:
  assumes "Split2d_forward input_name eps L x logdet True = Inr (z, l)"
  shows "l = logdet"
  using assms by (auto simp: Split2d_forward_def Let_def bnd_eq_Inr)

lemma Split2d_init_ok:
  assumes "Split2d_init c rnd = Inr L"
  shows "Split2d_ok L" "sp_num_channels L = c"
proof -
  obtain conv where c: "Conv2dZeros_init (c div 2) c (3, 3) 1 ''SAME'' 3 1 1 True rnd = Inr conv"
    and L: "L = \<lparr>sp_num_channels = c, sp_conv2d_zeros = conv\<rparr>"
    using assms by (auto simp: Split2d_init_def bnd_eq_Inr)
  note p = Conv2dZeros_init_Inr[OF c]
  have pad: "cv_padding conv = (1, 1)" using p(7) by (simp add: get_padding_def)
  show "Split2d_ok L" using p pad L by (simp add: Split2d_ok_def Let_def)
  show "sp_num_channels L = c" using L by simp
qed

text \<open>
  Claim C10. \<^verbatim>\<open>Split2d.forward\<close> with \<^verbatim>\<open>reverse=True\<close> hands the accumulator through:
  whatever the input and the accumulator (absent or a tensor), a call that returns
  returns the accumulator it was given, with no log-density term subtracted; and the call
  does return on every retained half, that is on every rank-4 input with half the
  channels of a layer of an even channel count, the parameters of the constructor's shapes
  and at least one pixel.
\<close>

theorem Split2d_reverse_keeps_accumulator:
  "(Split2d_forward input_name eps L x logdet True = Inr (z, l) \<longrightarrow> l = logdet)
   \<and> (Split2d_ok L \<and> even (sp_num_channels L) \<and>
      shape x = [n, sp_num_channels L div 2, h, w] \<and> 0 < h \<and> 0 < w
      \<longrightarrow> (\<exists>z'. Split2d_forward input_name eps L x logdet True = Inr (z', logdet)))"
  using Split2d_reverse_frame[of input_name eps L x logdet z l]
    Split2d_reverse_returns[of L x n h w input_name eps logdet]
  by blast

text \<open>The theorem at a fresh layer over two channels and a one-pixel retained half.\<close>

theorem Split2d_reverse_keeps_accumulator_witness:
  "\<exists>L z. Split2d_init 2 (\<lambda>ix. 0) = Inr L
     \<and> Split2d_forward None (\<lambda>ix. 1) L \<lparr>shape = [1, 1, 1, 1], data = [7]\<rparr>
          (Some \<lparr>shape = [1], data = [5]\<rparr>) True
        = Inr (z, Some \<lparr>shape = [1], data = [5]\<rparr>)"
proof -
  obtain L where L: "Split2d_init 2 (\<lambda>ix. 0) = Inr L"
    by (simp add: Split2d_init_def Conv2dZeros_init_def nn_Conv2d_init_def get_padding_def bnd_def)
  note o = Split2d_init_ok[OF L]
  let ?x = "\<lparr>shape = [1, 1, 1, 1], data = [7::real]\<rparr>"
  let ?ld = "Some \<lparr>shape = [1], data = [5::real]\<rparr>"
  have hyp: "Split2d_ok L \<and> even (sp_num_channels L) \<and>
      shape ?x = [1, sp_num_channels L div 2, 1, 1] \<and> 0 < (1::nat) \<and> 0 < (1::nat)"
    using o by simp
  obtain z where z: "Split2d_forward None (\<lambda>ix. 1) L ?x ?ld True = Inr (z, ?ld)"
    using Split2d_reverse_keeps_accumulator[of None "\<lambda>ix. 1" L ?x ?ld _ _ 1 1 1] hyp by blast
  show ?thesis using L z by blast
qed

end
